theory Spec2Isabelle
  imports Complex_Main
begin

section \<open>JavaScript numbers used by the engine\<close>

text \<open>
  Pad indices, rows, columns, MIDI notes and finger numbers are integers in every call
  the engine makes; they are modelled as \<open>int\<close>. The remainder operator \<open>%\<close> of
  JavaScript truncates towards zero (the result has the sign of the dividend), unlike
  \<open>mod\<close> on \<open>int\<close>, so it is written out. The divisor is positive wherever the source
  uses it (2 and 12).
\<close>

definition js_rem :: "int \<Rightarrow> int \<Rightarrow> int" where
  "js_rem a b = (if 0 \<le> a then a mod b else - ((- a) mod b))"

text \<open>
  Reading \<open>xs[i]\<close> in JavaScript gives \<open>undefined\<close> outside the array; the model returns
  \<open>None\<close> there.
\<close>

definition js_index :: "'a list \<Rightarrow> int \<Rightarrow> 'a option" where
  "js_index xs i = (if 0 \<le> i \<and> i < int (length xs) then Some (xs ! nat i) else None)"

section \<open>Grid geometry (src/core/grid.js)\<close>

record rowcol =
  row :: int
  col :: int

datatype error = InvalidPadIndex int | InvalidGridMode string | TypeError

definition ROW_COUNT :: int where
  "ROW_COUNT = 11"

definition getRowLength :: "int \<Rightarrow> int" where
  "getRowLength r = (if js_rem r 2 = 0 then 6 else 5)"

text \<open>
  \<open>ROW_START\<close> is built by the loop of the source: it starts from \<open>[0]\<close> and, for
  \<open>r = 1, ..., ROW_COUNT - 1\<close>, pushes the previous start plus 4 (odd \<open>r\<close>) or 3 (even \<open>r\<close>).
\<close>

definition ROW_START_step :: "int list \<Rightarrow> int \<Rightarrow> int list" where
  "ROW_START_step starts r =
     (let prev = starts ! nat (r - 1)
      in starts @ [prev + (if js_rem r 2 = 1 then 4 else 3)])"

definition ROW_START :: "int list" where
  "ROW_START = foldl ROW_START_step [0] [1..ROW_COUNT - 1]"

text \<open>
  \<open>getPadIndex\<close> is \<open>ROW_START[row] + col\<close>. Outside the table \<open>ROW_START[row]\<close> is
  \<open>undefined\<close> and the sum is \<open>NaN\<close>: the model returns \<open>None\<close> for it.
\<close>

definition getPadIndex :: "int \<Rightarrow> int \<Rightarrow> int option" where
  "getPadIndex r c = (case js_index ROW_START r of None \<Rightarrow> None | Some s \<Rightarrow> Some (s + c))"

text \<open>
  \<open>getRowCol\<close> scans the rows from 0 upwards and returns the first row in which the
  offset of the index is a column of that row; it throws when no row has it.
\<close>

fun getRowCol_scan :: "int \<Rightarrow> int list \<Rightarrow> rowcol option" where
  "getRowCol_scan padIndex [] = None"
| "getRowCol_scan padIndex (r # rs) =
     (case js_index ROW_START r of
        None \<Rightarrow> getRowCol_scan padIndex rs
      | Some s \<Rightarrow>
          if padIndex \<ge> s then
            (let c = padIndex - s
             in if c \<ge> 0 \<and> c < getRowLength r then Some \<lparr>row = r, col = c\<rparr>
                else getRowCol_scan padIndex rs)
          else getRowCol_scan padIndex rs)"

definition getRowCol :: "int \<Rightarrow> error + rowcol" where
  "getRowCol padIndex =
     (case getRowCol_scan padIndex [0..ROW_COUNT - 1] of
        Some rc \<Rightarrow> Inr rc
      | None \<Rightarrow> Inl (InvalidPadIndex padIndex))"

definition getMidiNote :: "int \<Rightarrow> int \<Rightarrow> int \<Rightarrow> int option" where
  "getMidiNote r c baseMidi = map_option (\<lambda>i. baseMidi + i) (getPadIndex r c)"

text \<open>A position is valid when its row is one of the 11 rows and its column lies in that row.\<close>

definition valid_pos :: "int \<Rightarrow> int \<Rightarrow> bool" where
  "valid_pos r c = (0 \<le> r \<and> r < ROW_COUNT \<and> 0 \<le> c \<and> c < getRowLength r)"

text \<open>
  Specification predicate: the pad index \<open>idx\<close> lies in row \<open>r\<close>, that is, row \<open>r\<close> is a row
  of the table and the offset of \<open>idx\<close> from its start is one of its columns.
\<close>

definition in_row :: "int \<Rightarrow> int \<Rightarrow> bool" where
  "in_row r idx = (case js_index ROW_START r of None \<Rightarrow> False
      | Some s \<Rightarrow> s \<le> idx \<and> idx - s < getRowLength r)"

section \<open>The Exquis device (src/devices/exquis/exquis-device.js)\<close>

text \<open>
  The device object holds one field, the layout mode, which the constructor sets to
  \<open>intervals\<close>; \<open>setGridMode\<close> accepts the two mode names and throws on any other.
\<close>

record ExquisDevice =
  currentGridMode :: string

definition ExquisDevice_new :: ExquisDevice where
  "ExquisDevice_new = \<lparr>currentGridMode = ''intervals''\<rparr>"

definition setGridMode :: "string \<Rightarrow> ExquisDevice \<Rightarrow> error + ExquisDevice" where
  "setGridMode mode dev =
     (if mode \<noteq> ''intervals'' \<and> mode \<noteq> ''chromatic'' then Inl (InvalidGridMode mode)
      else Inr (dev\<lparr>currentGridMode := mode\<rparr>))"

text \<open>
  Modelled from the spec: the module \<open>exquis-geometry.js\<close>, which declares the two row-start
  tables the device reads, is not among the sources. The spec gives the intervals table as
  row starts that advance by alternating +4/+3, which is the table \<open>ROW_START\<close> of
  \<open>grid.js\<close>.
\<close>

definition ROW_START_INTERVALS :: "int list" where
  "ROW_START_INTERVALS = ROW_START"

text \<open>
  Modelled from the spec: the table \<open>ROW_START_CHROMATIC\<close> of \<open>exquis-geometry.js\<close> is not
  among the sources. The spec defines the chromatic index as
  \<open>cumulative_row_start[row] + col\<close>: the start of a row is the number of pads in the rows
  below it.
\<close>

definition ROW_START_CHROMATIC :: "int list" where
  "ROW_START_CHROMATIC = map (\<lambda>r. sum_list (map getRowLength [0..r - 1])) [0..ROW_COUNT - 1]"

definition ExquisDevice_getRowStart :: "ExquisDevice \<Rightarrow> int list" where
  "ExquisDevice_getRowStart dev =
     (if currentGridMode dev = ''chromatic'' then ROW_START_CHROMATIC else ROW_START_INTERVALS)"

definition ExquisDevice_getPadIndex :: "ExquisDevice \<Rightarrow> int \<Rightarrow> int \<Rightarrow> int option" where
  "ExquisDevice_getPadIndex dev r c =
     (case js_index (ExquisDevice_getRowStart dev) r of None \<Rightarrow> None | Some s \<Rightarrow> Some (s + c))"

definition ExquisDevice_getMidiNote :: "ExquisDevice \<Rightarrow> int \<Rightarrow> int \<Rightarrow> int \<Rightarrow> int option" where
  "ExquisDevice_getMidiNote dev r c baseMidi =
     map_option (\<lambda>i. baseMidi + i) (ExquisDevice_getPadIndex dev r c)"

section \<open>Pitch classes (core/music.js)\<close>

definition midiToPitchClass :: "int \<Rightarrow> int" where
  "midiToPitchClass midiNote = js_rem (js_rem midiNote 12 + 12) 12"

subsection \<open>The built-ins \<open>split\<close>, \<open>trim\<close> and \<open>Number\<close> on text\<close>

text \<open>
  The text of the custom pitch-class field is modelled as a \<open>string\<close> of ASCII characters.
  \<open>split(',')\<close> cuts the text at every comma and keeps empty pieces; the empty text gives
  one empty piece.
\<close>

fun js_split_comma :: "string \<Rightarrow> string list" where
  "js_split_comma [] = [[]]"
| "js_split_comma (c # cs) =
     (if c = CHR '','' then [] # js_split_comma cs
      else (c # hd (js_split_comma cs)) # tl (js_split_comma cs))"

definition is_js_whitespace :: "char \<Rightarrow> bool" where
  "is_js_whitespace c =
     (c = CHR '' '' \<or> c = CHR 0x09 \<or> c = CHR 0x0A \<or> c = CHR 0x0B \<or> c = CHR 0x0C \<or> c = CHR 0x0D)"

definition js_trim :: "string \<Rightarrow> string" where
  "js_trim s = rev (dropWhile is_js_whitespace (rev (dropWhile is_js_whitespace s)))"

text \<open>
  A JavaScript number is a finite number, an infinity or \<open>NaN\<close>. The model keeps the exact
  value of a finite number as a rational: \<open>Number\<close> gives the mathematical value of the
  literal where JavaScript gives the nearest double. The two agree on every integer of
  magnitude up to \<open>2^53\<close>; the rounding and the overflow of other literals are not
  modelled. \<open>Infinity True\<close> is the positive infinity.
\<close>

datatype jsnum = Num rat | Infinity bool | NaN

definition char_code :: "char \<Rightarrow> nat" where
  "char_code c = of_char c"

definition char_between :: "char \<Rightarrow> char \<Rightarrow> char \<Rightarrow> bool" where
  "char_between lo hi c = (char_code lo \<le> char_code c \<and> char_code c \<le> char_code hi)"

definition is_digit :: "char \<Rightarrow> bool" where
  "is_digit c = char_between CHR ''0'' CHR ''9'' c"

definition digit_value :: "char \<Rightarrow> nat" where
  "digit_value c =
     (if char_between CHR ''0'' CHR ''9'' c then char_code c - char_code CHR ''0''
      else if char_between CHR ''a'' CHR ''f'' c then char_code c - char_code CHR ''a'' + 10
      else char_code c - char_code CHR ''A'' + 10)"

definition is_digit_of :: "nat \<Rightarrow> char \<Rightarrow> bool" where
  "is_digit_of base c =
     (if base = 16
      then is_digit c \<or> char_between CHR ''a'' CHR ''f'' c \<or> char_between CHR ''A'' CHR ''F'' c
      else is_digit c \<and> digit_value c < base)"

definition digits_value :: "nat \<Rightarrow> string \<Rightarrow> nat" where
  "digits_value base ds = foldl (\<lambda>a c. base * a + digit_value c) 0 ds"

text \<open>The exponent part of a decimal literal: nothing, or \<open>e\<close> with an optional sign and digits.\<close>

definition ExponentPart :: "string \<Rightarrow> int option" where
  "ExponentPart s =
     (case s of
        [] \<Rightarrow> Some 0
      | c # r \<Rightarrow>
          if c = CHR ''e'' \<or> c = CHR ''E'' then
            (let neg = (r \<noteq> [] \<and> hd r = CHR ''-'');
                 ds = (if r \<noteq> [] \<and> (hd r = CHR ''-'' \<or> hd r = CHR ''+'') then tl r else r)
             in if ds \<noteq> [] \<and> list_all is_digit ds
                then Some (if neg then - int (digits_value 10 ds) else int (digits_value 10 ds))
                else None)
          else None)"

text \<open>
  An unsigned decimal literal: \<open>Infinity\<close>, or digits with an optional fraction and an
  optional exponent, with a digit before or after the point.
\<close>

definition StrUnsignedDecimalLiteral :: "string \<Rightarrow> jsnum" where
  "StrUnsignedDecimalLiteral s =
     (if s = ''Infinity'' then Infinity True
      else
        (let ip = takeWhile is_digit s;
             r1 = dropWhile is_digit s;
             fp = (case r1 of [] \<Rightarrow> [] | c # r \<Rightarrow> if c = CHR ''.'' then takeWhile is_digit r else []);
             r2 = (case r1 of [] \<Rightarrow> [] | c # r \<Rightarrow> if c = CHR ''.'' then dropWhile is_digit r else r1)
         in if ip = [] \<and> fp = [] then NaN
            else
              (case ExponentPart r2 of
                 None \<Rightarrow> NaN
               | Some e \<Rightarrow>
                   Num ((of_nat (digits_value 10 ip) + of_nat (digits_value 10 fp) / 10 ^ length fp)
                        * (if 0 \<le> e then 10 ^ nat e else 1 / 10 ^ nat (- e))))))"

definition jsnum_negate :: "jsnum \<Rightarrow> jsnum" where
  "jsnum_negate n = (case n of Num q \<Rightarrow> Num (- q) | Infinity b \<Rightarrow> Infinity (\<not> b) | NaN \<Rightarrow> NaN)"

definition NonDecimalIntegerLiteral :: "string \<Rightarrow> jsnum option" where
  "NonDecimalIntegerLiteral s =
     (case s of
        z # x # ds \<Rightarrow>
          if z = CHR ''0'' \<and> (x = CHR ''x'' \<or> x = CHR ''X'' \<or> x = CHR ''o'' \<or> x = CHR ''O'' \<or> x = CHR ''b'' \<or> x = CHR ''B'')
          then
            (let base = (if x = CHR ''x'' \<or> x = CHR ''X'' then 16
                         else if x = CHR ''o'' \<or> x = CHR ''O'' then 8 else (2::nat))
             in if ds \<noteq> [] \<and> list_all (is_digit_of base) ds
                then Some (Num (of_nat (digits_value base ds))) else Some NaN)
          else None
      | _ \<Rightarrow> None)"

text \<open>
  \<open>Number(text)\<close>: white space around the text is ignored, the empty text is 0, a literal
  with radix prefix takes no sign, a decimal literal takes an optional sign, and any other
  text is \<open>NaN\<close>.
\<close>

definition Number :: "string \<Rightarrow> jsnum" where
  "Number s0 =
     (let s = js_trim s0
      in if s = [] then Num 0
         else
           (case NonDecimalIntegerLiteral s of
              Some n \<Rightarrow> n
            | None \<Rightarrow>
                if hd s = CHR ''-'' then jsnum_negate (StrUnsignedDecimalLiteral (tl s))
                else if hd s = CHR ''+'' then StrUnsignedDecimalLiteral (tl s)
                else StrUnsignedDecimalLiteral s))"

text \<open>
  \<open>n % 12\<close> on numbers: the remainder keeps the sign of \<open>n\<close>; it is \<open>NaN\<close> for an infinity
  and for \<open>NaN\<close>. \<open>n + 12\<close> keeps an infinity and \<open>NaN\<close>.
\<close>

definition jsnum_rem12 :: "jsnum \<Rightarrow> jsnum" where
  "jsnum_rem12 n =
     (case n of
        Num q \<Rightarrow> Num (if 0 \<le> q then q - 12 * of_int \<lfloor>q / 12\<rfloor> else q + 12 * of_int \<lfloor>(- q) / 12\<rfloor>)
      | Infinity b \<Rightarrow> NaN
      | NaN \<Rightarrow> NaN)"

definition jsnum_add12 :: "jsnum \<Rightarrow> jsnum" where
  "jsnum_add12 n = (case n of Num q \<Rightarrow> Num (q + 12) | Infinity b \<Rightarrow> Infinity b | NaN \<Rightarrow> NaN)"

subsection \<open>parseCustomPitchClasses\<close>

text \<open>
  The function returns the empty set for a blank text. Otherwise every piece between commas
  is trimmed and converted with \<open>Number\<close>; a piece whose number is not \<open>NaN\<close> adds
  \<open>((n % 12) + 12) % 12\<close> to the set.
\<close>

definition parseCustomPitchClasses_token :: "jsnum set \<Rightarrow> string \<Rightarrow> jsnum set" where
  "parseCustomPitchClasses_token pcs s =
     (let n = Number (js_trim s)
      in if n \<noteq> NaN then insert (jsnum_rem12 (jsnum_add12 (jsnum_rem12 n))) pcs else pcs)"

definition parseCustomPitchClasses :: "string \<Rightarrow> jsnum set" where
  "parseCustomPitchClasses pcString =
     (if pcString = [] \<or> js_trim pcString = [] then {}
      else foldl parseCustomPitchClasses_token {} (js_split_comma pcString))"

section \<open>Handprints and the chord matcher (analysis/chord-matcher.js)\<close>

text \<open>
  A captured position has a row, a column, a pad index, a MIDI note and a finger. The MIDI
  note may be missing (\<open>None\<close>): the matcher then derives it from the pad index. A
  handprint carries an identifier, the hand, an optional comfort rating, an optional base
  MIDI note, capture metadata, its positions and the cached distances between finger
  pairs (absent in \<open>None\<close>).
\<close>

record position = rowcol +
  padIndex :: int
  midiNote :: "int option"
  finger :: int

record handprint =
  hp_id :: string
  hand :: string
  comfortRating :: "real option"
  baseMidi :: "int option"
  midiDevice :: "string option"
  capturedAt :: "int option"
  positions :: "position list"
  measurements :: "(string \<times> real) list option"

text \<open>
  A position of a candidate fingering adds the pitch class; a candidate fingering of the
  matcher has the fields the source writes, and \<open>comfortScore\<close>, which only the scorer
  adds (\<open>None\<close> before). The record is parametric in what the field \<open>positions\<close> holds:
  the list of positions for a fingering taken as a value, the address of the array for a
  fingering object in a store.
\<close>

record fingering_position = position +
  pitchClass :: int

record 'p fingering_of =
  handprintId :: string
  hand :: string
  comfortRating :: "real option"
  baseMidi :: int
  midiDevice :: "string option"
  capturedAt :: "int option"
  positions :: 'p
  score :: int
  comfortScore :: "int option"
  geometricScore :: int
  ergonomicScore :: int

type_synonym fingering = "fingering_position list fingering_of"

text \<open>
  \<open>generateSubsets\<close>: the inner function \<open>backtrack\<close> records the current subset when its
  size is within the bounds, stops at the maximal size, and otherwise extends the subset
  with each later element of the array in turn. The subsets come out in the order the
  source pushes them.
\<close>

function backtrack :: "'a list \<Rightarrow> nat \<Rightarrow> nat \<Rightarrow> nat \<Rightarrow> 'a list \<Rightarrow> 'a list list" where
  "backtrack arr minSize maxSize start current =
     (let size = length current
      in (if size \<ge> minSize \<and> size \<le> maxSize then [current] else []) @
         (if size = maxSize then []
          else concat (map (\<lambda>i. backtrack arr minSize maxSize (i + 1) (current @ [arr ! i]))
                        [start..<length arr])))"
  by pat_completeness auto
termination
  by (relation "measure (\<lambda>(arr, minSize, maxSize, start, current). length arr - start)") auto

declare backtrack.simps [simp del]

definition generateSubsets :: "'a list \<Rightarrow> nat \<Rightarrow> nat \<Rightarrow> 'a list list" where
  "generateSubsets arr minSize maxSize = backtrack arr minSize maxSize 0 []"

text \<open>
  The expression \<open>pos.midiNote || (baseMidi + pos.padIndex)\<close>: the stored note unless it is
  missing or 0, otherwise the note derived from the pad index.
\<close>

definition midiNoteOf :: "int \<Rightarrow> position \<Rightarrow> int" where
  "midiNoteOf base pos =
     (case midiNote pos of
        None \<Rightarrow> base + padIndex pos
      | Some m \<Rightarrow> if m = 0 then base + padIndex pos else m)"

text \<open>
  The test of a subset: the set of its pitch classes has the size of the target set and
  each of its members is in the target set. A JavaScript \<open>Set\<close> built from a list is
  modelled by the list without its duplicates.
\<close>

definition subsetMatches :: "int list \<Rightarrow> int \<Rightarrow> position list \<Rightarrow> bool" where
  "subsetMatches targetPitchClasses base fingerSubset =
     (let targetSet = remdups targetPitchClasses;
          pitchClasses = map (\<lambda>pos. midiToPitchClass (midiNoteOf base pos)) fingerSubset;
          pitchSet = remdups pitchClasses
      in length pitchSet = length targetSet \<and> list_all (\<lambda>pc. pc \<in> set targetSet) pitchSet)"

definition makeFingering :: "int \<Rightarrow> handprint \<Rightarrow> position list \<Rightarrow> fingering" where
  "makeFingering base hp fingerSubset =
     \<lparr>handprintId = hp_id hp,
      hand = handprint.hand hp,
      comfortRating =
        Some (case handprint.comfortRating hp of None \<Rightarrow> 50 | Some c \<Rightarrow> if c = 0 then 50 else c),
      baseMidi = (case handprint.baseMidi hp of None \<Rightarrow> base | Some b \<Rightarrow> if b = 0 then base else b),
      midiDevice = handprint.midiDevice hp,
      capturedAt = handprint.capturedAt hp,
      positions =
        map (\<lambda>pos. \<lparr>row = row pos, col = col pos, padIndex = padIndex pos,
                     midiNote = Some (midiNoteOf base pos), finger = finger pos,
                     pitchClass = midiToPitchClass (midiNoteOf base pos)\<rparr>) fingerSubset,
      score = 0,
      comfortScore = None,
      geometricScore = 0,
      ergonomicScore = 0\<rparr>"

text \<open>
  The hand filter applies when a hand is given and is not the empty text. Each handprint
  contributes, in order, one fingering for each of its subsets of 3 to 5 positions that
  passes the test.
\<close>

definition findChordFingerings ::
  "int list \<Rightarrow> handprint list \<Rightarrow> int \<Rightarrow> string option \<Rightarrow> fingering list" where
  "findChordFingerings targetPitchClasses handprints base hnd =
     (let filteredHandprints =
            (case hnd of
               None \<Rightarrow> handprints
             | Some h \<Rightarrow> if h = [] then handprints
                         else filter (\<lambda>hp. handprint.hand hp = h) handprints)
      in concat (map (\<lambda>hp.
           map (makeFingering base hp)
             (filter (subsetMatches targetPitchClasses base)
                (generateSubsets (handprint.positions hp) 3 5)))
           filteredHandprints))"

text \<open>
  \<open>usesConsecutiveFingers\<close> sorts the finger numbers and checks that each is the previous
  one plus 1; \<open>calculateSpan\<close> is the largest Euclidean distance between two positions
  (two nested loops over the pairs, starting from 0).
\<close>

fun consecutive :: "int list \<Rightarrow> bool" where
  "consecutive (a # b # rest) = (if b \<noteq> a + 1 then False else consecutive (b # rest))"
| "consecutive _ = True"

definition usesConsecutiveFingers :: "('a position_scheme) list \<Rightarrow> bool" where
  "usesConsecutiveFingers ps = consecutive (sort (map finger ps))"

fun calculateSpan_inner :: "'a rowcol_scheme \<Rightarrow> ('a rowcol_scheme) list \<Rightarrow> real \<Rightarrow> real" where
  "calculateSpan_inner p [] maxDistance = maxDistance"
| "calculateSpan_inner p (q # rest) maxDistance =
     (let dx = col q - col p;
          dy = row q - row p;
          distance = sqrt (real_of_int (dx * dx + dy * dy))
      in calculateSpan_inner p rest (max maxDistance distance))"

fun calculateSpan_outer :: "('a rowcol_scheme) list \<Rightarrow> real \<Rightarrow> real" where
  "calculateSpan_outer [] maxDistance = maxDistance"
| "calculateSpan_outer (p # rest) maxDistance =
     calculateSpan_outer rest (calculateSpan_inner p rest maxDistance)"

definition calculateSpan :: "('a rowcol_scheme) list \<Rightarrow> real" where
  "calculateSpan ps = calculateSpan_outer ps 0"

section \<open>The scorer (analysis/fingering-scorer.js)\<close>

text \<open>
  Scores are JavaScript numbers; they are modelled as exact reals. \<open>Math.round\<close> rounds to
  the nearest integer, a half upwards.
\<close>

definition Math_round :: "real \<Rightarrow> int" where
  "Math_round x = \<lfloor>x + 1 / 2\<rfloor>"

definition scoreComfort :: "fingering \<Rightarrow> real" where
  "scoreComfort f =
     (case comfortRating f of None \<Rightarrow> 50 | Some c \<Rightarrow> if c = 0 then 50 else c)"

definition spanScore :: "real \<Rightarrow> real" where
  "spanScore sp =
     (if sp \<le> 3 then 100
      else if sp \<le> 5 then 100 - ((sp - 3) * 15)
      else if sp \<le> 7 then 70 - ((sp - 5) * 15)
      else max 0 (40 - ((sp - 7) * 10)))"

text \<open>
  The minimum and maximum of no rows are \<open>Infinity\<close> and \<open>-Infinity\<close>, so the row span of a
  fingering with no position is \<open>-Infinity\<close>, which is at most 2.
\<close>

definition compactnessScore :: "int list \<Rightarrow> real" where
  "compactnessScore rows =
     (if rows = [] then 100
      else
        (let minRow = fold min rows (hd rows);
             maxRow = fold max rows (hd rows);
             rowSpan = maxRow - minRow
         in if rowSpan \<le> 2 then 100 else max 0 (100 - real_of_int (rowSpan - 2) * 20)))"

definition scoreGeometry :: "fingering \<Rightarrow> real" where
  "scoreGeometry f =
     (let sp = calculateSpan (positions f);
          rows = map row (positions f)
      in (spanScore sp + compactnessScore rows) / 2)"

text \<open>
  \<open>scoreErgonomics\<close> reads three things from the fingering: whether its fingers are
  consecutive, the number of its positions, and the sorted list of its finger numbers.
  \<open>ergonomicsFrom\<close> is the arithmetic of the function on these three.
\<close>

definition ergonomicsFrom :: "bool \<Rightarrow> nat \<Rightarrow> int list \<Rightarrow> real" where
  "ergonomicsFrom consecutiveFingers fingerCount fingers =
     (let s0 = (50::real);
          s1 = (if consecutiveFingers then s0 + 30 else s0);
          s2 = (if fingerCount = 3 \<or> fingerCount = 4 then s1 + 20
                else if fingerCount = 5 then s1 + 10 else s1);
          s3 = (if 1 \<in> set fingers \<and> 5 \<in> set fingers \<and>
                   2 \<notin> set fingers \<and> 3 \<notin> set fingers \<and> 4 \<notin> set fingers
                then s2 - 30 else s2);
          s4 = (if length fingers = 2 \<and> fingers ! 0 = 1 \<and> fingers ! 1 = 5 then s3 - 20 else s3)
      in max 0 (min 100 s4))"

definition scoreErgonomics :: "fingering \<Rightarrow> real" where
  "scoreErgonomics f =
     ergonomicsFrom (usesConsecutiveFingers (positions f)) (length (positions f))
       (sort (map finger (positions f)))"

definition scoreFingering :: "fingering \<Rightarrow> fingering" where
  "scoreFingering f =
     (let comfort = scoreComfort f;
          geometric = scoreGeometry f;
          ergonomic = scoreErgonomics f;
          totalScore = comfort * 0.4 + geometric * 0.3 + ergonomic * 0.3
      in f\<lparr>score := Math_round totalScore,
           comfortScore := Some (Math_round comfort),
           geometricScore := Math_round geometric,
           ergonomicScore := Math_round ergonomic\<rparr>)"

text \<open>
  \<open>rankFingerings\<close> scores every fingering and sorts the new list by descending score. The
  sort of JavaScript is stable; so is \<open>sort_key\<close>.
\<close>

definition rankFingerings :: "fingering list \<Rightarrow> fingering list" where
  "rankFingerings fingerings = sort_key (\<lambda>f. - score f) (map scoreFingering fingerings)"

section \<open>Data of the pattern extractor and of the synthesizer\<close>

text \<open>
  The statistics \<open>extractPatterns\<close> returns: per finger pair the average, standard
  deviation and number of samples of the cached distances; the span of every handprint;
  per grid position the number of times each finger was captured there; the chord shapes
  (positions relative to the lowest finger); the average comfort and span.
\<close>

record relative_position =
  finger_r :: int
  rowOffset :: int
  colOffset :: int
  distance :: real

record chord_shape =
  numFingers :: nat
  fingers :: "int list"
  geometry :: "relative_position list"
  comfort :: real

record distance_stats =
  avg :: real
  stdDev :: real
  samples :: nat

record patterns =
  hand_pt :: "string option"
  fingerDistances :: "(string \<times> distance_stats) list"
  spanDistances :: "real list"
  fingerAssignments :: "((int \<times> int) \<times> (int \<times> nat) list) list"
  chordShapes :: "chord_shape list"
  avgComfort :: real
  avgSpan :: real
  spanStdDev :: real

text \<open>
  A pad found by the synthesizer, the same pad with its finger and hand, and a candidate
  of the synthesizer. The score of a candidate is a JavaScript number that can be \<open>NaN\<close>
  (\<open>None\<close>). A field whose name a record of the matcher already uses carries a suffix
  (\<open>_r\<close>, \<open>_pt\<close>, \<open>_p\<close>, \<open>_a\<close>, \<open>_s\<close>).
\<close>

record pad = rowcol +
  padIndex_p :: int
  midiNote_p :: int
  pc :: int

record assigned_pad = pad +
  finger_a :: int
  hand_a :: string

record synth_fingering =
  hand_s :: string
  baseMidi_s :: int
  positions_s :: "assigned_pad list"
  targetPitchClasses :: "int list"
  score_s :: "real option"

section \<open>The pattern extractor (analysis/pattern-extractor.js)\<close>









text \<open>
  \<open>Object.entries\<close> of the counts of one position lists the fingers that are array
  indices in ascending order, then the other keys in the order they were added.
\<close>

definition is_array_index :: "int \<Rightarrow> bool" where
  "is_array_index k = (0 \<le> k \<and> k < 4294967295)"

definition Object_entries :: "(int \<times> nat) list \<Rightarrow> (int \<times> nat) list" where
  "Object_entries al =
     sort_key fst (filter (\<lambda>e. is_array_index (fst e)) al) @
     filter (\<lambda>e. \<not> is_array_index (fst e)) al"

definition suggestFingerForPosition :: "int \<Rightarrow> int \<Rightarrow> patterns \<Rightarrow> int option" where
  "suggestFingerForPosition r c pats =
     (case map_of (fingerAssignments pats) (r, c) of
        None \<Rightarrow> None
      | Some assignments \<Rightarrow>
          fst (foldl (\<lambda>(bestFinger, maxCount) (f, n).
                        if n > maxCount then (Some f, n) else (bestFinger, maxCount))
                 (None, 0) (Object_entries assignments)))"


section \<open>The synthesizer (analysis/fingering-synthesizer.js)\<close>







text \<open>
  \<open>Array.prototype.sort\<close> with a comparator is a stable sort: an element goes before the
  elements it does not compare greater than. A comparator result \<open>NaN\<close> counts as 0.
\<close>

fun js_insort :: "('a \<Rightarrow> 'a \<Rightarrow> real) \<Rightarrow> 'a \<Rightarrow> 'a list \<Rightarrow> 'a list" where
  "js_insort cmp x [] = [x]"
| "js_insort cmp x (y # ys) = (if cmp x y \<le> 0 then x # y # ys else y # js_insort cmp x ys)"

definition js_sort :: "('a \<Rightarrow> 'a \<Rightarrow> real) \<Rightarrow> 'a list \<Rightarrow> 'a list" where
  "js_sort cmp xs = foldr (js_insort cmp) xs []"


text \<open>
  \<open>assignFingers\<close> sorts the pads by row, then by column (ascending for the right hand,
  descending otherwise), and gives each pad the finger the statistics suggest or, without
  a suggestion, its rank in the sorted order, at most 5.
\<close>

definition comparePads :: "string \<Rightarrow> pad \<Rightarrow> pad \<Rightarrow> real" where
  "comparePads hnd a b =
     (if row a \<noteq> row b then real_of_int (row a - row b)
      else if hnd = ''right'' then real_of_int (col a - col b)
      else real_of_int (col b - col a))"

definition assignFingers :: "pad list \<Rightarrow> string \<Rightarrow> patterns option \<Rightarrow> assigned_pad list" where
  "assignFingers pads hnd pats =
     (if length pads = 0 then []
      else
        (let sortedPads = js_sort (comparePads hnd) pads
         in map (\<lambda>(p, index).
              (let suggested = (case pats of None \<Rightarrow> None
                                | Some ps \<Rightarrow> suggestFingerForPosition (row p) (col p) ps);
                   f = (case suggested of
                          None \<Rightarrow> min (int index + 1) 5
                        | Some g \<Rightarrow> if g = 0 then min (int index + 1) 5 else g)
               in \<lparr>row = row p, col = col p, padIndex_p = padIndex_p p, midiNote_p = midiNote_p p,
                   pc = pc p, finger_a = f, hand_a = hnd\<rparr>))
            (zip sortedPads [0..<length sortedPads])))"





definition compareScores :: "synth_fingering \<Rightarrow> synth_fingering \<Rightarrow> real" where
  "compareScores a b =
     (case (score_s b, score_s a) of
        (Some y, Some x) \<Rightarrow> y - x
      | _ \<Rightarrow> 0)"



section \<open>The caller of the synthesizer (generateChordSuggestion of the application)\<close>


section \<open>rankFingerings on a store of objects\<close>

text \<open>
  Whether \<open>rankFingerings\<close> changes its input depends on which objects the code writes, so
  the scorer is modelled a second time over an explicit store. A store is the list of the
  allocated cells; the address of a cell is its index, and an allocation appends a cell.
  A cell is a fingering object (its field \<open>positions\<close> is the address of an array), an
  array of fingering objects (their addresses), an array of positions, or an array of
  numbers. Reading an address that holds no cell of the expected kind is the
  \<open>TypeError\<close> JavaScript raises on a missing object or array.
\<close>

type_synonym addr = nat

datatype cell =
    FingeringObject "addr fingering_of"
  | FingeringArray "addr list"
  | PositionArray "fingering_position list"
  | NumberArray "int list"

type_synonym store = "cell list"

definition store_read :: "store \<Rightarrow> addr \<Rightarrow> cell option" where
  "store_read h a = (if a < length h then Some (h ! a) else None)"

definition store_alloc :: "store \<Rightarrow> cell \<Rightarrow> store \<times> addr" where
  "store_alloc h c = (h @ [c], length h)"

definition store_write :: "store \<Rightarrow> addr \<Rightarrow> cell \<Rightarrow> store" where
  "store_write h a c = h[a := c]"

definition number_array_at :: "store \<Rightarrow> addr \<Rightarrow> int list" where
  "number_array_at h a = (case store_read h a of Some (NumberArray xs) \<Rightarrow> xs | _ \<Rightarrow> [])"

definition fingering_array_at :: "store \<Rightarrow> addr \<Rightarrow> addr list" where
  "fingering_array_at h a = (case store_read h a of Some (FingeringArray xs) \<Rightarrow> xs | _ \<Rightarrow> [])"

definition score_at :: "store \<Rightarrow> addr \<Rightarrow> int" where
  "score_at h a = (case store_read h a of Some (FingeringObject obj) \<Rightarrow> score obj | _ \<Rightarrow> 0)"

text \<open>
  \<open>positions.map(p => p.finger).sort((a, b) => a - b)\<close>: \<open>map\<close> allocates a new array of
  the finger numbers and \<open>sort\<close> sorts that array in place.
\<close>

definition sortedFingers_store :: "store \<Rightarrow> fingering_position list \<Rightarrow> store \<times> addr" where
  "sortedFingers_store h ps =
     (let (h1, a) = store_alloc h (NumberArray (map finger ps))
      in (store_write h1 a (NumberArray (sort (number_array_at h1 a))), a))"

definition usesConsecutiveFingers_store :: "store \<Rightarrow> fingering_position list \<Rightarrow> store \<times> bool" where
  "usesConsecutiveFingers_store h ps =
     (let (h1, a) = sortedFingers_store h ps
      in (h1, consecutive (number_array_at h1 a)))"

text \<open>\<open>scoreGeometry\<close> reads the positions and allocates the array \<open>rows\<close>.\<close>

definition scoreGeometry_store :: "store \<Rightarrow> fingering_position list \<Rightarrow> store \<times> real" where
  "scoreGeometry_store h ps =
     (let sp = calculateSpan ps;
          (h1, a) = store_alloc h (NumberArray (map row ps));
          rows = number_array_at h1 a
      in (h1, (spanScore sp + compactnessScore rows) / 2))"

text \<open>
  \<open>scoreErgonomics\<close> calls \<open>usesConsecutiveFingers\<close> and then builds and sorts its own array
  \<open>fingers\<close>.
\<close>

definition scoreErgonomics_store :: "store \<Rightarrow> fingering_position list \<Rightarrow> store \<times> real" where
  "scoreErgonomics_store h ps =
     (let (h1, cons) = usesConsecutiveFingers_store h ps;
          fingerCount = length ps;
          (h2, a) = sortedFingers_store h1 ps;
          fingerList = number_array_at h2 a
      in (h2, ergonomicsFrom cons fingerCount fingerList))"

text \<open>
  \<open>scoreFingering\<close> reads the fingering object and its positions, computes the three
  sub-scores, and allocates the object of the spread \<open>{...fingering, score, ...}\<close>: a copy
  of the fields of the argument (the address of the same positions array among them) with
  the four scores set.
\<close>

definition scoreFingering_store :: "store \<Rightarrow> addr \<Rightarrow> error + store \<times> addr" where
  "scoreFingering_store h a =
     (case store_read h a of
        Some (FingeringObject obj) \<Rightarrow>
          (case store_read h (positions obj) of
             Some (PositionArray ps) \<Rightarrow>
               (let comfort = (case comfortRating obj of None \<Rightarrow> 50
                               | Some c \<Rightarrow> if c = 0 then 50 else c);
                    (h1, geometric) = scoreGeometry_store h ps;
                    (h2, ergonomic) = scoreErgonomics_store h1 ps;
                    totalScore = comfort * 0.4 + geometric * 0.3 + ergonomic * 0.3
                in Inr (store_alloc h2
                     (FingeringObject
                        (obj\<lparr>score := Math_round totalScore,
                             comfortScore := Some (Math_round comfort),
                             geometricScore := Math_round geometric,
                             ergonomicScore := Math_round ergonomic\<rparr>))))
           | _ \<Rightarrow> Inl TypeError)
      | _ \<Rightarrow> Inl TypeError)"

text \<open>
  \<open>fingerings.map(f => scoreFingering(f))\<close> allocates the result array, then calls the
  function on each element in order and stores each result in the new array.
  \<open>sort\<close> then sorts the new array in place by descending score (a stable sort) and
  returns it.
\<close>

fun map_scoreFingering_store :: "store \<Rightarrow> addr \<Rightarrow> addr list \<Rightarrow> error + store" where
  "map_scoreFingering_store h out [] = Inr h"
| "map_scoreFingering_store h out (e # es) =
     (case scoreFingering_store h e of
        Inl err \<Rightarrow> Inl err
      | Inr (h1, r) \<Rightarrow>
          map_scoreFingering_store
            (store_write h1 out (FingeringArray (fingering_array_at h1 out @ [r]))) out es)"

definition rankFingerings_store :: "store \<Rightarrow> addr \<Rightarrow> error + store \<times> addr" where
  "rankFingerings_store h a =
     (case store_read h a of
        Some (FingeringArray elems) \<Rightarrow>
          (let (h0, out) = store_alloc h (FingeringArray [])
           in case map_scoreFingering_store h0 out elems of
                Inl err \<Rightarrow> Inl err
              | Inr h1 \<Rightarrow>
                  Inr (store_write h1 out
                         (FingeringArray
                            (sort_key (\<lambda>e. - score_at h1 e) (fingering_array_at h1 out))),
                       out))
      | _ \<Rightarrow> Inl TypeError)"

text \<open>
  Specification notions for the store: a store extends another when the cells of the
  older one are all still there, unchanged; a fingering object of the store read as a
  value, with its positions in place of their address.
\<close>

definition store_extends :: "store \<Rightarrow> store \<Rightarrow> bool" where
  "store_extends h h' = (length h \<le> length h' \<and> take (length h) h' = h)"

definition load_fingering :: "store \<Rightarrow> addr \<Rightarrow> fingering option" where
  "load_fingering h a =
     (case store_read h a of
        Some (FingeringObject obj) \<Rightarrow>
          (case store_read h (positions obj) of
             Some (PositionArray ps) \<Rightarrow>
               Some \<lparr>handprintId = handprintId obj, hand = hand obj,
                     comfortRating = comfortRating obj, baseMidi = baseMidi obj,
                     midiDevice = midiDevice obj, capturedAt = capturedAt obj,
                     positions = ps, score = score obj, comfortScore = comfortScore obj,
                     geometricScore = geometricScore obj, ergonomicScore = ergonomicScore obj\<rparr>
           | _ \<Rightarrow> None)
      | _ \<Rightarrow> None)"

definition load_fingerings :: "store \<Rightarrow> addr \<Rightarrow> fingering list option" where
  "load_fingerings h a =
     (case store_read h a of
        Some (FingeringArray elems) \<Rightarrow>
          (if list_all (\<lambda>e. load_fingering h e \<noteq> None) elems
           then Some (map (\<lambda>e. the (load_fingering h e)) elems) else None)
      | _ \<Rightarrow> None)"

text \<open>
  Further specification notions: the object \<open>scoreFingering\<close> allocates for a fingering
  object with the positions \<open>ps\<close>; two stores that agree on every cell of the first
  except the one at \<open>out\<close>; and a fresh object at \<open>r\<close> that reads as the scored value of
  \<open>f\<close> and whose positions array is older than \<open>out\<close>.
\<close>

definition scored_object :: "addr fingering_of \<Rightarrow> fingering_position list \<Rightarrow> addr fingering_of" where
  "scored_object obj ps =
     (let comfort = (case comfortRating obj of None \<Rightarrow> 50 | Some c \<Rightarrow> if c = 0 then 50 else c);
          geometric = (spanScore (calculateSpan ps) + compactnessScore (map row ps)) / 2;
          ergonomic = ergonomicsFrom (usesConsecutiveFingers ps) (length ps) (sort (map finger ps))
      in obj\<lparr>score := Math_round (comfort * 0.4 + geometric * 0.3 + ergonomic * 0.3),
             comfortScore := Some (Math_round comfort),
             geometricScore := Math_round geometric,
             ergonomicScore := Math_round ergonomic\<rparr>)"

definition agree_except :: "addr \<Rightarrow> store \<Rightarrow> store \<Rightarrow> bool" where
  "agree_except out h h' = (length h \<le> length h' \<and> (\<forall>b < length h. b \<noteq> out \<longrightarrow> h' ! b = h ! b))"

definition scored_at :: "store \<Rightarrow> addr \<Rightarrow> addr \<Rightarrow> fingering \<Rightarrow> bool" where
  "scored_at h out r f =
     (out < r \<and> load_fingering h r = Some (scoreFingering f) \<and>
      (\<exists>obj. store_read h r = Some (FingeringObject obj) \<and> positions obj < out))"

section \<open>Facts about the grid\<close>


lemma upto_0_10: "[0..10::int] = [0,1,2,3,4,5,6,7,8,9,10]"
  by (simp add: upto_rec1)

lemma upto_1_10: "[1..10::int] = [1,2,3,4,5,6,7,8,9,10]"
  by (simp add: upto_rec1)

lemma ROW_START_value: "ROW_START = [0, 4, 7, 11, 14, 18, 21, 25, 28, 32, 35]"
  by (simp add: ROW_START_def ROW_COUNT_def upto_1_10 ROW_START_step_def js_rem_def)

lemma in_row_iff: "in_row r idx \<longleftrightarrow> 0 \<le> r \<and> r < ROW_COUNT \<and> (\<exists>c. 0 \<le> c \<and> c < getRowLength r \<and> getPadIndex r c = Some idx)"
proof
  assume a: "in_row r idx"
  then obtain s where s: "js_index ROW_START r = Some s" "s \<le> idx" "idx - s < getRowLength r"
    by (auto simp: in_row_def split: option.splits)
  then have "0 \<le> r \<and> r < ROW_COUNT"
    by (auto simp: js_index_def ROW_START_value ROW_COUNT_def split: if_splits)
  moreover have "0 \<le> idx - s \<and> idx - s < getRowLength r \<and> getPadIndex r (idx - s) = Some idx"
    using s by (simp add: getPadIndex_def)
  ultimately show "0 \<le> r \<and> r < ROW_COUNT \<and> (\<exists>c. 0 \<le> c \<and> c < getRowLength r \<and> getPadIndex r c = Some idx)"
    by blast
next
  assume "0 \<le> r \<and> r < ROW_COUNT \<and> (\<exists>c. 0 \<le> c \<and> c < getRowLength r \<and> getPadIndex r c = Some idx)"
  then show "in_row r idx"
    by (auto simp: in_row_def getPadIndex_def split: option.splits)
qed

lemma in_row_cases: "in_row r idx \<longleftrightarrow>
   (r = 0 \<and> 0 \<le> idx \<and> idx \<le> 5) \<or> (r = 1 \<and> 4 \<le> idx \<and> idx \<le> 8) \<or>
   (r = 2 \<and> 7 \<le> idx \<and> idx \<le> 12) \<or> (r = 3 \<and> 11 \<le> idx \<and> idx \<le> 15) \<or>
   (r = 4 \<and> 14 \<le> idx \<and> idx \<le> 19) \<or> (r = 5 \<and> 18 \<le> idx \<and> idx \<le> 22) \<or>
   (r = 6 \<and> 21 \<le> idx \<and> idx \<le> 26) \<or> (r = 7 \<and> 25 \<le> idx \<and> idx \<le> 29) \<or>
   (r = 8 \<and> 28 \<le> idx \<and> idx \<le> 33) \<or> (r = 9 \<and> 32 \<le> idx \<and> idx \<le> 36) \<or>
   (r = 10 \<and> 35 \<le> idx \<and> idx \<le> 40)"
proof -
  have r: "js_index ROW_START r \<noteq> None \<longleftrightarrow> r \<in> {0,1,2,3,4,5,6,7,8,9,10}"
    unfolding js_index_def ROW_START_value by simp arith
  show ?thesis
  proof (cases "r \<in> {0,1,2,3,4,5,6,7,8,9,10}")
    case True
    then show ?thesis
      by (elim insertE emptyE) (auto simp: in_row_def js_index_def ROW_START_value getRowLength_def js_rem_def)
  next
    case False
    then have "js_index ROW_START r = None" using r by blast
    then show ?thesis using False by (auto simp: in_row_def)
  qed
qed

lemma scan_None: "getRowCol_scan idx rs = None \<longleftrightarrow> list_all (\<lambda>r. \<not> in_row r idx) rs"
  by (induction rs) (auto simp: in_row_def Let_def split: option.splits)

lemma scan_Some:
  "getRowCol_scan idx rs = Some rc \<Longrightarrow>
     \<exists>pre post. rs = pre @ row rc # post \<and> list_all (\<lambda>r. \<not> in_row r idx) pre \<and>
       in_row (row rc) idx \<and> js_index ROW_START (row rc) = Some (idx - col rc)"
proof (induction rs)
  case Nil
  then show ?case by simp
next
  case (Cons r rs)
  show ?case
  proof (cases "in_row r idx")
    case True
    then have "rc = \<lparr>row = r, col = idx - the (js_index ROW_START r)\<rparr>"
      using Cons.prems by (auto simp: in_row_def Let_def split: option.splits)
    then show ?thesis using True
      by (intro exI[of _ "[]"] exI[of _ rs]) (auto simp: in_row_def split: option.splits)
  next
    case False
    then have "getRowCol_scan idx rs = Some rc"
      using Cons.prems by (auto simp: in_row_def Let_def split: option.splits if_splits)
    from Cons.IH[OF this] obtain pre post where
      "rs = pre @ row rc # post" "list_all (\<lambda>r. \<not> in_row r idx) pre"
      "in_row (row rc) idx" "js_index ROW_START (row rc) = Some (idx - col rc)" by blast
    then show ?thesis using False
      by (intro exI[of _ "r # pre"] exI[of _ post]) auto
  qed
qed

lemma in_row_valid: "in_row r idx \<longleftrightarrow> (\<exists>c. valid_pos r c \<and> getPadIndex r c = Some idx)"
  unfolding in_row_iff valid_pos_def by blast

lemma getRowCol_Inr:
  assumes "getRowCol idx = Inr rc"
  shows "valid_pos (row rc) (col rc) \<and> getPadIndex (row rc) (col rc) = Some idx \<and>
         (\<forall>r. in_row r idx \<longrightarrow> row rc \<le> r)"
proof -
  from assms have sc: "getRowCol_scan idx [0..ROW_COUNT - 1] = Some rc"
    by (auto simp: getRowCol_def split: option.splits)
  from scan_Some[OF this] obtain pre post where
    d: "[0..ROW_COUNT - 1] = pre @ row rc # post" and
    pre: "list_all (\<lambda>r. \<not> in_row r idx) pre" and
    ir: "in_row (row rc) idx" and st: "js_index ROW_START (row rc) = Some (idx - col rc)" by blast
  from ir st have v: "valid_pos (row rc) (col rc)"
    by (auto simp: valid_pos_def in_row_def js_index_def ROW_START_value ROW_COUNT_def
          split: if_splits)
  from st have g: "getPadIndex (row rc) (col rc) = Some idx"
    by (simp add: getPadIndex_def)
  have "sorted [0..ROW_COUNT - 1]" by simp
  then have srt: "sorted (pre @ row rc # post)" using d by simp
  have least: "row rc \<le> r" if "in_row r idx" for r
  proof -
    from that have "r \<in> set [0..ROW_COUNT - 1]" by (auto simp: in_row_iff)
    then have "r \<in> set pre \<or> r \<in> set (row rc # post)" using d by auto
    moreover have "r \<notin> set pre" using pre that by (auto simp: list_all_iff)
    ultimately have "r \<in> set (row rc # post)" by blast
    then show ?thesis using srt by (auto simp: sorted_append)
  qed
  show ?thesis using v g least by blast
qed

text \<open>
  Claim C6. In the intervals layout of \<open>grid.js\<close>, for every valid position \<open>(r, c)\<close> the
  index \<open>idx = getPadIndex r c\<close> is a number, \<open>getRowCol idx\<close> returns (does not throw) a
  valid position whose own pad index is \<open>idx\<close> again, and the row it returns is the lowest
  row of any valid position that has the index \<open>idx\<close>.
\<close>

theorem getRowCol_getPadIndex_consistent:
  assumes "valid_pos r c"
  shows "\<exists>idx rc. getPadIndex r c = Some idx \<and> getRowCol idx = Inr rc \<and>
           valid_pos (row rc) (col rc) \<and> getPadIndex (row rc) (col rc) = Some idx \<and>
           (\<forall>r' c'. valid_pos r' c' \<and> getPadIndex r' c' = Some idx \<longrightarrow> row rc \<le> r')"
proof -
  from assms obtain idx where idx: "getPadIndex r c = Some idx"
    by (auto simp: valid_pos_def getPadIndex_def js_index_def ROW_START_value ROW_COUNT_def)
  with assms have "in_row r idx" unfolding in_row_valid by blast
  then have "r \<in> set [0..ROW_COUNT - 1]" by (auto simp: in_row_iff)
  with \<open>in_row r idx\<close> have "getRowCol_scan idx [0..ROW_COUNT - 1] \<noteq> None"
    unfolding scan_None by (auto simp: list_all_iff)
  then obtain rc where rc: "getRowCol idx = Inr rc"
    by (auto simp: getRowCol_def split: option.splits)
  from getRowCol_Inr[OF rc] idx rc show ?thesis
    unfolding in_row_valid by blast
qed

theorem getRowCol_getPadIndex_consistent_witness:
  "valid_pos 1 0 \<and> getPadIndex 1 0 = Some 4 \<and> getRowCol 4 = Inr \<lparr>row = 0, col = 4\<rparr> \<and>
   valid_pos 0 4 \<and> getPadIndex 0 4 = Some 4"
  using getRowCol_getPadIndex_consistent[of 1 0]
  by (simp add: valid_pos_def ROW_COUNT_def getRowLength_def js_rem_def getPadIndex_def
        js_index_def ROW_START_value getRowCol_def upto_0_10)

lemma in_row_ex: "(\<exists>r. in_row r idx) \<longleftrightarrow> 0 \<le> idx \<and> idx \<le> 40"
  unfolding in_row_cases by arith

text \<open>
  Claim C9. \<open>getRowCol\<close> throws \<open>Invalid pad index\<close> exactly for the integers outside
  \<open>[0, 40]\<close>; for every integer in \<open>[0, 40]\<close> it returns a valid position with that index;
  the indices \<open>getPadIndex\<close> gives over the valid positions are exactly the integers of
  \<open>[0, 40]\<close>, so \<open>getRowCol\<close> never throws on the index of a valid position.
\<close>

theorem getRowCol_error_iff:
  "(getRowCol idx = Inl (InvalidPadIndex idx) \<longleftrightarrow> idx < 0 \<or> 40 < idx) \<and>
   (0 \<le> idx \<and> idx \<le> 40 \<longrightarrow>
      (\<exists>rc. getRowCol idx = Inr rc \<and> valid_pos (row rc) (col rc) \<and>
            getPadIndex (row rc) (col rc) = Some idx)) \<and>
   {i. \<exists>r c. valid_pos r c \<and> getPadIndex r c = Some i} = {0..40} \<and>
   (\<forall>r c i. valid_pos r c \<and> getPadIndex r c = Some i \<longrightarrow> (\<forall>e. getRowCol i \<noteq> Inl e))"
proof -
  have none: "getRowCol_scan i [0..ROW_COUNT - 1] = None \<longleftrightarrow> \<not> (\<exists>r. in_row r i)" for i
    unfolding scan_None list_all_iff by (auto simp: in_row_iff)
  have err: "getRowCol i = Inl e \<longleftrightarrow> e = InvalidPadIndex i \<and> (i < 0 \<or> 40 < i)" for i e
    using none[of i] in_row_ex[of i] by (auto simp: getRowCol_def split: option.splits)
  have ok: "\<exists>rc. getRowCol i = Inr rc \<and> valid_pos (row rc) (col rc) \<and>
            getPadIndex (row rc) (col rc) = Some i" if "0 \<le> i \<and> i \<le> 40" for i
  proof -
    from that err[of i] obtain rc where "getRowCol i = Inr rc"
      by (cases "getRowCol i") auto
    with getRowCol_Inr[OF this] show ?thesis by blast
  qed
  have range: "{i. \<exists>r c. valid_pos r c \<and> getPadIndex r c = Some i} = {0..40}"
    using in_row_ex by (auto simp: in_row_valid)
  have unreach: "getRowCol i \<noteq> Inl e" if "valid_pos r c \<and> getPadIndex r c = Some i" for r c i e
  proof -
    from that have "i \<in> {0..40}" using range by blast
    then show ?thesis using err[of i e] by auto
  qed
  show ?thesis using err[of idx "InvalidPadIndex idx"] ok[of idx] range unreach by blast
qed

theorem getRowCol_error_iff_witness:
  "getRowCol 41 = Inl (InvalidPadIndex 41) \<and> getRowCol (- 1) = Inl (InvalidPadIndex (- 1)) \<and>
   getRowCol 40 = Inr \<lparr>row = 10, col = 5\<rparr> \<and> valid_pos 10 5 \<and> getPadIndex 10 5 = Some 40"
  using getRowCol_error_iff[of 41] getRowCol_error_iff[of "- 1"] getRowCol_error_iff[of 40]
  by (simp add: valid_pos_def ROW_COUNT_def getRowLength_def js_rem_def getPadIndex_def
        js_index_def ROW_START_value getRowCol_def upto_0_10)


section \<open>Facts about the Exquis device\<close>

lemma ROW_START_CHROMATIC_value:
  "ROW_START_CHROMATIC = [0, 6, 11, 17, 22, 28, 33, 39, 44, 50, 55]"
  by (simp add: ROW_START_CHROMATIC_def ROW_COUNT_def upto_0_10 upto_rec1 getRowLength_def
        js_rem_def)

text \<open>
  Claim C7. On the hex grid, after the device is switched to chromatic mode, with
  \<open>baseMidi = 48\<close>, \<open>getMidiNote(0,0)\<close> is 48 and \<open>getMidiNote(1,0)\<close> is 54: row 1 starts at
  pad index 6.
\<close>

theorem ExquisDevice_getMidiNote_chromatic:
  "setGridMode ''chromatic'' ExquisDevice_new = Inr \<lparr>currentGridMode = ''chromatic''\<rparr> \<and>
   ExquisDevice_getMidiNote \<lparr>currentGridMode = ''chromatic''\<rparr> 0 0 48 = Some 48 \<and>
   ExquisDevice_getMidiNote \<lparr>currentGridMode = ''chromatic''\<rparr> 1 0 48 = Some 54 \<and>
   ExquisDevice_getPadIndex \<lparr>currentGridMode = ''chromatic''\<rparr> 1 0 = Some 6"
  by (simp add: setGridMode_def ExquisDevice_new_def ExquisDevice_getMidiNote_def
        ExquisDevice_getPadIndex_def ExquisDevice_getRowStart_def ROW_START_CHROMATIC_value
        js_index_def)

section \<open>Facts about pitch classes\<close>



text \<open>
  Claim C8, at the inputs where the code departs from it. The text \<open>4,7,\<close> ends with an
  empty piece, which is not a number; \<open>Number\<close> turns it into 0, so the result has the
  pitch class 0 beside 4 and 7. The text \<open>Infinity\<close> is a number for \<open>Number\<close>; its
  remainder is \<open>NaN\<close>, so the result holds a value outside \<open>[0,12)\<close>. A text of decimal
  integers and a malformed piece gives the pitch classes of the integers alone.
\<close>

theorem parseCustomPitchClasses_blank_piece:
  "parseCustomPitchClasses ''4,7,'' = {Num 0, Num 4, Num 7} \<and>
   parseCustomPitchClasses ''Infinity'' = {NaN} \<and>
   parseCustomPitchClasses ''-1, x, 14'' = {Num 11, Num 2}"
  by code_simp

section \<open>Facts about the chord matcher\<close>

lemma subsetMatches_exact:
  assumes "subsetMatches T base sub"
  shows "set (map (\<lambda>pos. midiToPitchClass (midiNoteOf base pos)) sub) = set T"
proof -
  let ?P = "set (map (\<lambda>pos. midiToPitchClass (midiNoteOf base pos)) sub)"
  from assms have len: "card ?P = card (set T)" and sub: "?P \<subseteq> set T"
    by (auto simp: subsetMatches_def Let_def list_all_iff length_remdups_card_conv)
  show ?thesis using sub len by (intro card_subset_eq) auto
qed

lemma makeFingering_pitchClasses:
  "map pitchClass (positions (makeFingering base hp sub)) =
   map (\<lambda>pos. midiToPitchClass (midiNoteOf base pos)) sub"
  by (simp add: makeFingering_def comp_def)

lemma makeFingering_positions_derived:
  "list_all (\<lambda>p. midiNote p \<noteq> None \<and> pitchClass p = midiToPitchClass (the (midiNote p)))
     (positions (makeFingering base hp sub))"
  by (simp add: makeFingering_def list_all_iff)

lemma findChordFingerings_mem:
  assumes "f \<in> set (findChordFingerings T hps base hnd)"
  shows "\<exists>hp sub. hp \<in> set hps \<and> sub \<in> set (generateSubsets (handprint.positions hp) 3 5) \<and>
           subsetMatches T base sub \<and> f = makeFingering base hp sub"
  using assms by (auto simp: findChordFingerings_def Let_def split: option.splits if_splits)

text \<open>
  Claim C1. Every candidate fingering that \<open>findChordFingerings\<close> returns has a pitch-class
  set equal to the set of the target pitch classes: the same members and the same size.
  Each of its positions carries a MIDI note (the stored one, or the one derived from the
  pad index), and its pitch class is the pitch class of that note.
\<close>

theorem findChordFingerings_exact:
  assumes "f \<in> set (findChordFingerings T hps base hnd)"
  shows "set (map pitchClass (positions f)) = set T \<and>
         card (set (map pitchClass (positions f))) = card (set T) \<and>
         list_all (\<lambda>p. midiNote p \<noteq> None \<and> pitchClass p = midiToPitchClass (the (midiNote p)))
           (positions f)"
proof -
  from findChordFingerings_mem[OF assms] obtain hp sub where
    m: "subsetMatches T base sub" and f: "f = makeFingering base hp sub" by blast
  have "set (map pitchClass (positions f)) = set T"
    unfolding f makeFingering_pitchClasses using subsetMatches_exact[OF m] .
  then show ?thesis using makeFingering_positions_derived[of base hp sub] f by simp
qed

lemma generateSubsets_three: "generateSubsets [a, b, c] 3 5 = [[a, b, c]]"
  by (simp add: generateSubsets_def upt_rec
        backtrack.simps[of "[a,b,c]" 3 5 0] backtrack.simps[of "[a,b,c]" 3 5 "Suc 0"]
        backtrack.simps[of "[a,b,c]" 3 5 1]
        backtrack.simps[of "[a,b,c]" 3 5 2] backtrack.simps[of "[a,b,c]" 3 5 3]
        backtrack.simps[of "[a,b,c]" 3 5 "Suc (Suc 0)"]
        backtrack.simps[of "[a,b,c]" 3 5 "Suc (Suc (Suc 0))"])

theorem findChordFingerings_exact_witness:
  "\<lparr>handprintId = ''h1'', hand = ''right'', comfortRating = Some 80, baseMidi = 48,
     midiDevice = None, capturedAt = None,
     positions = [\<lparr>row = 0, col = 0, padIndex = 0, midiNote = Some 48, finger = 1, pitchClass = 0\<rparr>,
                  \<lparr>row = 0, col = 4, padIndex = 4, midiNote = Some 52, finger = 2, pitchClass = 4\<rparr>,
                  \<lparr>row = 2, col = 0, padIndex = 7, midiNote = Some 55, finger = 3, pitchClass = 7\<rparr>],
     score = 0, comfortScore = None, geometricScore = 0, ergonomicScore = 0\<rparr>
   \<in> set (findChordFingerings [0, 4, 7]
     [\<lparr>hp_id = ''h1'', hand = ''right'', comfortRating = Some 80, baseMidi = Some 48,
       midiDevice = None, capturedAt = None,
       positions = [\<lparr>row = 0, col = 0, padIndex = 0, midiNote = Some 48, finger = 1\<rparr>,
                    \<lparr>row = 0, col = 4, padIndex = 4, midiNote = None, finger = 2\<rparr>,
                    \<lparr>row = 2, col = 0, padIndex = 7, midiNote = Some 55, finger = 3\<rparr>],
       measurements = None\<rparr>] 48 None) \<and>
   set (map pitchClass
     [\<lparr>row = 0, col = 0, padIndex = 0, midiNote = Some 48, finger = 1, pitchClass = 0\<rparr>,
      \<lparr>row = 0, col = 4, padIndex = 4, midiNote = Some 52, finger = 2, pitchClass = 4\<rparr>,
      \<lparr>row = 2, col = 0, padIndex = 7, midiNote = Some 55, finger = 3, pitchClass = 7\<rparr>]) = set [0, 4, 7]"
proof -
  let ?hp = "\<lparr>hp_id = ''h1'', hand = ''right'', comfortRating = Some 80, baseMidi = Some 48,
       midiDevice = None, capturedAt = None,
       positions = [\<lparr>row = 0, col = 0, padIndex = 0, midiNote = Some 48, finger = 1\<rparr>,
                    \<lparr>row = 0, col = 4, padIndex = 4, midiNote = None, finger = 2\<rparr>,
                    \<lparr>row = 2, col = 0, padIndex = 7, midiNote = Some 55, finger = 3\<rparr>],
       measurements = None\<rparr>"
  let ?f = "\<lparr>handprintId = ''h1'', hand = ''right'', comfortRating = Some 80, baseMidi = 48,
     midiDevice = None, capturedAt = None,
     positions = [\<lparr>row = 0, col = 0, padIndex = 0, midiNote = Some 48, finger = 1, pitchClass = 0\<rparr>,
                  \<lparr>row = 0, col = 4, padIndex = 4, midiNote = Some 52, finger = 2, pitchClass = 4\<rparr>,
                  \<lparr>row = 2, col = 0, padIndex = 7, midiNote = Some 55, finger = 3, pitchClass = 7\<rparr>],
     score = 0, comfortScore = None, geometricScore = 0, ergonomicScore = 0\<rparr>"
  have mem: "?f \<in> set (findChordFingerings [0, 4, 7] [?hp] 48 None)"
    by (simp add: findChordFingerings_def generateSubsets_three subsetMatches_def makeFingering_def
          midiNoteOf_def midiToPitchClass_def js_rem_def)
  from findChordFingerings_exact[OF mem] mem show ?thesis by simp
qed

section \<open>Facts about the scorer\<close>

lemma calculateSpan_inner_ge: "m \<le> calculateSpan_inner p qs m"
proof (induction qs arbitrary: m)
  case Nil
  then show ?case by simp
next
  case (Cons q qs)
  have "m \<le> max m (sqrt (real_of_int ((col q - col p) * (col q - col p) + (row q - row p) * (row q - row p))))"
    by simp
  also have "\<dots> \<le> calculateSpan_inner p qs (max m (sqrt (real_of_int ((col q - col p) * (col q - col p) + (row q - row p) * (row q - row p)))))"
    by (rule Cons.IH)
  finally show ?case by (simp add: Let_def)
qed

lemma calculateSpan_outer_ge: "m \<le> calculateSpan_outer ps m"
proof (induction ps arbitrary: m)
  case Nil
  then show ?case by simp
next
  case (Cons p ps)
  have "m \<le> calculateSpan_inner p ps m" by (rule calculateSpan_inner_ge)
  also have "\<dots> \<le> calculateSpan_outer ps (calculateSpan_inner p ps m)" by (rule Cons.IH)
  finally show ?case by simp
qed

lemma calculateSpan_nonneg: "0 \<le> calculateSpan ps"
  unfolding calculateSpan_def by (rule calculateSpan_outer_ge)

lemma spanScore_bounds: "0 \<le> spanScore s \<and> spanScore s \<le> 100"
  unfolding spanScore_def by auto

lemma compactnessScore_bounds: "0 \<le> compactnessScore rows \<and> compactnessScore rows \<le> 100"
  unfolding compactnessScore_def Let_def by auto

lemma scoreGeometry_bounds: "0 \<le> scoreGeometry f \<and> scoreGeometry f \<le> 100"
  using spanScore_bounds[of "calculateSpan (positions f)"]
        compactnessScore_bounds[of "map row (positions f)"]
  unfolding scoreGeometry_def Let_def by auto

lemma scoreErgonomics_bounds: "0 \<le> scoreErgonomics f \<and> scoreErgonomics f \<le> 100"
  unfolding scoreErgonomics_def ergonomicsFrom_def Let_def by simp

lemma scoreComfort_bounds:
  assumes "\<forall>c. comfortRating f = Some c \<longrightarrow> 0 \<le> c \<and> c \<le> 100"
  shows "0 \<le> scoreComfort f \<and> scoreComfort f \<le> 100"
  using assms unfolding scoreComfort_def by (auto split: option.splits)

lemma Math_round_bounds:
  assumes "0 \<le> x" "x \<le> 100"
  shows "0 \<le> Math_round x \<and> Math_round x \<le> 100"
  using assms unfolding Math_round_def by (simp add: floor_le_iff le_floor_iff)

lemma Math_round_nearest: "\<bar>real_of_int (Math_round x) - x\<bar> \<le> 1 / 2"
  unfolding Math_round_def by linarith

text \<open>
  Claim C3. For a fingering whose comfort rating, when present, lies in \<open>[0,100]\<close>, the
  reported total, comfort, geometric and ergonomic scores all lie in \<open>[0,100]\<close>. The
  total is the weighted sum \<open>comfort * 0.4 + geometry * 0.3 + ergonomics * 0.3\<close> of the
  sub-scores, each of which lies in \<open>[0,100]\<close>; the total and each sub-score are reported
  through \<open>Math.round\<close>, which is within one half of its argument.
\<close>

theorem scoreFingering_bounds:
  assumes "\<forall>c. comfortRating f = Some c \<longrightarrow> 0 \<le> c \<and> c \<le> 100"
  shows "0 \<le> score (scoreFingering f) \<and> score (scoreFingering f) \<le> 100 \<and>
         0 \<le> the (comfortScore (scoreFingering f)) \<and> the (comfortScore (scoreFingering f)) \<le> 100 \<and>
         0 \<le> geometricScore (scoreFingering f) \<and> geometricScore (scoreFingering f) \<le> 100 \<and>
         0 \<le> ergonomicScore (scoreFingering f) \<and> ergonomicScore (scoreFingering f) \<le> 100 \<and>
         score (scoreFingering f) =
           Math_round (scoreComfort f * 0.4 + scoreGeometry f * 0.3 + scoreErgonomics f * 0.3) \<and>
         comfortScore (scoreFingering f) = Some (Math_round (scoreComfort f)) \<and>
         geometricScore (scoreFingering f) = Math_round (scoreGeometry f) \<and>
         ergonomicScore (scoreFingering f) = Math_round (scoreErgonomics f) \<and>
         0 \<le> scoreComfort f \<and> scoreComfort f \<le> 100 \<and>
         0 \<le> scoreGeometry f \<and> scoreGeometry f \<le> 100 \<and>
         0 \<le> scoreErgonomics f \<and> scoreErgonomics f \<le> 100 \<and>
         (\<forall>x. \<bar>real_of_int (Math_round x) - x\<bar> \<le> 1 / 2)"
proof -
  note c = scoreComfort_bounds[OF assms]
  note g = scoreGeometry_bounds[of f]
  note e = scoreErgonomics_bounds[of f]
  have t: "0 \<le> scoreComfort f * 0.4 + scoreGeometry f * 0.3 + scoreErgonomics f * 0.3 \<and>
           scoreComfort f * 0.4 + scoreGeometry f * 0.3 + scoreErgonomics f * 0.3 \<le> 100"
    using c g e by auto
  have s: "score (scoreFingering f) =
           Math_round (scoreComfort f * 0.4 + scoreGeometry f * 0.3 + scoreErgonomics f * 0.3)"
     "comfortScore (scoreFingering f) = Some (Math_round (scoreComfort f))"
     "geometricScore (scoreFingering f) = Math_round (scoreGeometry f)"
     "ergonomicScore (scoreFingering f) = Math_round (scoreErgonomics f)"
    by (simp_all add: scoreFingering_def Let_def)
  show ?thesis
    unfolding s using c g e Math_round_bounds[of "scoreComfort f"]
      Math_round_bounds[of "scoreGeometry f"] Math_round_bounds[of "scoreErgonomics f"]
      Math_round_bounds[of "scoreComfort f * 0.4 + scoreGeometry f * 0.3 + scoreErgonomics f * 0.3"] t
      Math_round_nearest
    by simp
qed

lemma sqrt_values: "sqrt 9 = 3" "sqrt 16 = 4" "sqrt 25 = 5"
  by (simp_all add: real_sqrt_unique)

theorem scoreFingering_bounds_witness:
  "comfortRating
     \<lparr>handprintId = ''h1'', hand = ''right'', comfortRating = Some 80, baseMidi = 48,
      midiDevice = None, capturedAt = None,
      positions = [\<lparr>row = 0, col = 0, padIndex = 0, midiNote = Some 48, finger = 1, pitchClass = 0\<rparr>,
                   \<lparr>row = 0, col = 1, padIndex = 1, midiNote = Some 49, finger = 2, pitchClass = 1\<rparr>,
                   \<lparr>row = 0, col = 2, padIndex = 2, midiNote = Some 50, finger = 3, pitchClass = 2\<rparr>],
      score = 0, comfortScore = None, geometricScore = 0, ergonomicScore = 0\<rparr> = Some 80 \<and>
   scoreFingering
     \<lparr>handprintId = ''h1'', hand = ''right'', comfortRating = Some 80, baseMidi = 48,
      midiDevice = None, capturedAt = None,
      positions = [\<lparr>row = 0, col = 0, padIndex = 0, midiNote = Some 48, finger = 1, pitchClass = 0\<rparr>,
                   \<lparr>row = 0, col = 1, padIndex = 1, midiNote = Some 49, finger = 2, pitchClass = 1\<rparr>,
                   \<lparr>row = 0, col = 2, padIndex = 2, midiNote = Some 50, finger = 3, pitchClass = 2\<rparr>],
      score = 0, comfortScore = None, geometricScore = 0, ergonomicScore = 0\<rparr>
   = \<lparr>handprintId = ''h1'', hand = ''right'', comfortRating = Some 80, baseMidi = 48,
      midiDevice = None, capturedAt = None,
      positions = [\<lparr>row = 0, col = 0, padIndex = 0, midiNote = Some 48, finger = 1, pitchClass = 0\<rparr>,
                   \<lparr>row = 0, col = 1, padIndex = 1, midiNote = Some 49, finger = 2, pitchClass = 1\<rparr>,
                   \<lparr>row = 0, col = 2, padIndex = 2, midiNote = Some 50, finger = 3, pitchClass = 2\<rparr>],
      score = 92, comfortScore = Some 80, geometricScore = 100, ergonomicScore = 100\<rparr>"
  using scoreFingering_bounds[of
     "\<lparr>handprintId = ''h1'', hand = ''right'', comfortRating = Some 80, baseMidi = 48,
      midiDevice = None, capturedAt = None,
      positions = [\<lparr>row = 0, col = 0, padIndex = 0, midiNote = Some 48, finger = 1, pitchClass = 0\<rparr>,
                   \<lparr>row = 0, col = 1, padIndex = 1, midiNote = Some 49, finger = 2, pitchClass = 1\<rparr>,
                   \<lparr>row = 0, col = 2, padIndex = 2, midiNote = Some 50, finger = 3, pitchClass = 2\<rparr>],
      score = 0, comfortScore = None, geometricScore = 0, ergonomicScore = 0\<rparr>"]
  by (simp add: scoreFingering_def scoreComfort_def scoreGeometry_def scoreErgonomics_def
        ergonomicsFrom_def calculateSpan_def spanScore_def compactnessScore_def usesConsecutiveFingers_def
        Math_round_def Let_def sqrt_values)

text \<open>
  Claim C2, at an input where the code departs from it. Three positions at \<open>(0,0)\<close>,
  \<open>(3,0)\<close> and \<open>(3,4)\<close> have the pairwise distances 3, 5 and 4, so the span is 5, and
  the row span is 3. The span score of the code at span 5 is 70 (the claim and the
  comment in the source say 85), the compactness score is 80, and the geometric score is
  their average 75, reported as 75.
\<close>

theorem scoreGeometry_at_span_5:
  "calculateSpan [\<lparr>row = 0, col = 0\<rparr>, \<lparr>row = 3, col = 0\<rparr>, \<lparr>row = 3, col = 4\<rparr>] = 5 \<and>
   spanScore 5 = 70 \<and>
   compactnessScore [0, 3, 3] = 80 \<and>
   scoreGeometry
     \<lparr>handprintId = ''h1'', hand = ''right'', comfortRating = Some 80, baseMidi = 48,
      midiDevice = None, capturedAt = None,
      positions = [\<lparr>row = 0, col = 0, padIndex = 0, midiNote = Some 48, finger = 1, pitchClass = 0\<rparr>,
                   \<lparr>row = 3, col = 0, padIndex = 11, midiNote = Some 59, finger = 2, pitchClass = 11\<rparr>,
                   \<lparr>row = 3, col = 4, padIndex = 15, midiNote = Some 63, finger = 3, pitchClass = 3\<rparr>],
      score = 0, comfortScore = None, geometricScore = 0, ergonomicScore = 0\<rparr> = 75 \<and>
   Math_round 75 = 75"
  by (simp add: scoreGeometry_def calculateSpan_def spanScore_def compactnessScore_def
        Math_round_def Let_def sqrt_values)

text \<open>
  Ranking order. The list \<open>rankFingerings\<close> returns is sorted by non-increasing total
  score; it has as many elements as the input, and its elements are the scored input
  fingerings.
\<close>

lemma rankFingerings_sorted:
  "sorted_wrt (\<lambda>a b. score a \<ge> score b) (rankFingerings fs) \<and>
   length (rankFingerings fs) = length fs \<and>
   set (rankFingerings fs) = scoreFingering ` set fs"
proof -
  have "sorted (map (\<lambda>f. - score f) (rankFingerings fs))"
    unfolding rankFingerings_def by (rule sorted_sort_key)
  then have "sorted_wrt (\<lambda>a b. score a \<ge> score b) (rankFingerings fs)"
    by (simp add: sorted_map)
  then show ?thesis by (simp add: rankFingerings_def)
qed

section \<open>Facts about the synthesizer\<close>






































text \<open>
  A combination comes in the order of the target pitch classes; \<open>assignFingers\<close> puts it
  in the order of the rows, then of the columns by hand, before it numbers the fingers.
\<close>

lemma assignFingers_unsorted_combination:
  "assignFingers
     [\<lparr>row = 1, col = 3, padIndex_p = 7, midiNote_p = 55, pc = 7\<rparr>,
      \<lparr>row = 0, col = 4, padIndex_p = 4, midiNote_p = 52, pc = 4\<rparr>,
      \<lparr>row = 0, col = 0, padIndex_p = 0, midiNote_p = 48, pc = 0\<rparr>] ''right'' None =
     [\<lparr>row = 0, col = 0, padIndex_p = 0, midiNote_p = 48, pc = 0, finger_a = 1, hand_a = ''right''\<rparr>,
      \<lparr>row = 0, col = 4, padIndex_p = 4, midiNote_p = 52, pc = 4, finger_a = 2, hand_a = ''right''\<rparr>,
      \<lparr>row = 1, col = 3, padIndex_p = 7, midiNote_p = 55, pc = 7, finger_a = 3, hand_a = ''right''\<rparr>] \<and>
   assignFingers
     [\<lparr>row = 1, col = 3, padIndex_p = 7, midiNote_p = 55, pc = 7\<rparr>,
      \<lparr>row = 0, col = 4, padIndex_p = 4, midiNote_p = 52, pc = 4\<rparr>,
      \<lparr>row = 0, col = 0, padIndex_p = 0, midiNote_p = 48, pc = 0\<rparr>] ''left'' None =
     [\<lparr>row = 0, col = 4, padIndex_p = 4, midiNote_p = 52, pc = 4, finger_a = 1, hand_a = ''left''\<rparr>,
      \<lparr>row = 0, col = 0, padIndex_p = 0, midiNote_p = 48, pc = 0, finger_a = 2, hand_a = ''left''\<rparr>,
      \<lparr>row = 1, col = 3, padIndex_p = 7, midiNote_p = 55, pc = 7, finger_a = 3, hand_a = ''left''\<rparr>]"
  by (simp add: assignFingers_def js_sort_def comparePads_def upt_rec)






text \<open>
  Without statistics the comparator of the ranking is total and transitive on the
  candidates, whose scores are numbers: the result is in the order of decreasing score.
\<close>

lemma compareScores_le:
  "score_s a = Some x \<Longrightarrow> score_s b = Some y \<Longrightarrow> compareScores a b \<le> 0 \<longleftrightarrow> y \<le> x"
  by (simp add: compareScores_def)




section \<open>Facts about the synthesizer and its caller\<close>











section \<open>Facts about rankFingerings on a store\<close>

lemma store_extends_refl: "store_extends h h"
  by (simp add: store_extends_def)

lemma store_extends_trans: "store_extends h1 h2 \<Longrightarrow> store_extends h2 h3 \<Longrightarrow> store_extends h1 h3"
  unfolding store_extends_def
  by (metis order_trans min.absorb_iff1 take_take min.commute)

lemma store_extends_append: "store_extends h (h @ cs)"
  by (simp add: store_extends_def)

lemma store_extends_write:
  assumes "store_extends h0 h" "length h0 \<le> a"
  shows "store_extends h0 (store_write h a c)"
  using assms by (simp add: store_extends_def store_write_def)

lemma store_extends_read:
  assumes "store_extends h h'" "b < length h"
  shows "store_read h' b = store_read h b"
proof -
  from assms have "h' ! b = take (length h) h' ! b" by simp
  also have "\<dots> = h ! b" using assms by (simp add: store_extends_def)
  finally show ?thesis using assms by (simp add: store_read_def store_extends_def)
qed

lemma store_write_last: "store_write (h @ [c]) (length h) c' = h @ [c']"
  by (simp add: store_write_def)

lemma number_array_at_last: "number_array_at (h @ [NumberArray xs]) (length h) = xs"
  by (simp add: number_array_at_def store_read_def)

lemma sortedFingers_store_eq:
  "sortedFingers_store h ps = (h @ [NumberArray (sort (map finger ps))], length h)"
  by (simp add: sortedFingers_store_def store_alloc_def store_write_last number_array_at_last)

lemma usesConsecutiveFingers_store_eq:
  "usesConsecutiveFingers_store h ps =
     (h @ [NumberArray (sort (map finger ps))], usesConsecutiveFingers ps)"
  by (simp add: usesConsecutiveFingers_store_def sortedFingers_store_eq number_array_at_last
        usesConsecutiveFingers_def)

lemma scoreGeometry_store_eq:
  "scoreGeometry_store h ps =
     (h @ [NumberArray (map row ps)],
      (spanScore (calculateSpan ps) + compactnessScore (map row ps)) / 2)"
  by (simp add: scoreGeometry_store_def store_alloc_def number_array_at_last Let_def)

lemma scoreErgonomics_store_eq:
  "scoreErgonomics_store h ps =
     (h @ [NumberArray (sort (map finger ps)), NumberArray (sort (map finger ps))],
      ergonomicsFrom (usesConsecutiveFingers ps) (length ps) (sort (map finger ps)))"
  by (simp add: scoreErgonomics_store_def usesConsecutiveFingers_store_eq sortedFingers_store_eq
        number_array_at_last[of "h @ [c]" for c, simplified])

lemma scoreFingering_store_Inr:
  assumes "scoreFingering_store h a = Inr (h', r)"
  shows "\<exists>obj ps. store_read h a = Some (FingeringObject obj) \<and>
           store_read h (positions obj) = Some (PositionArray ps) \<and>
           h' = h @ [NumberArray (map row ps), NumberArray (sort (map finger ps)),
                     NumberArray (sort (map finger ps)), FingeringObject (scored_object obj ps)] \<and>
           r = length h + 3"
proof -
  from assms obtain obj where obj: "store_read h a = Some (FingeringObject obj)"
    by (auto simp: scoreFingering_store_def split: option.splits cell.splits)
  with assms obtain ps where ps: "store_read h (positions obj) = Some (PositionArray ps)"
    by (auto simp: scoreFingering_store_def split: option.splits cell.splits)
  have "scoreFingering_store h a =
        Inr (h @ [NumberArray (map row ps), NumberArray (sort (map finger ps)),
                     NumberArray (sort (map finger ps)), FingeringObject (scored_object obj ps)],
             length h + 3)"
    by (simp add: scoreFingering_store_def obj ps scoreGeometry_store_eq scoreErgonomics_store_eq
          store_alloc_def scored_object_def Let_def)
  with assms obj ps show ?thesis by auto
qed

lemma store_read_write_same:
  "a < length h \<Longrightarrow> store_read (store_write h a c) a = Some c"
  by (simp add: store_read_def store_write_def)

lemma length_store_write: "length (store_write h a c) = length h"
  by (simp add: store_write_def)

lemma map_scoreFingering_store_frame:
  assumes "map_scoreFingering_store h out es = Inr h'"
    and "store_extends h0 h" and "length h0 \<le> out" and "out < length h"
    and "store_read h out = Some (FingeringArray acc)"
    and "\<forall>e \<in> set acc. length h0 \<le> e \<and> e < length h"
  shows "store_extends h0 h' \<and> length h \<le> length h' \<and>
         (\<exists>acc'. store_read h' out = Some (FingeringArray acc') \<and>
                 (\<forall>e \<in> set acc'. length h0 \<le> e \<and> e < length h') \<and>
                 length acc' = length acc + length es)"
  using assms
proof (induction es arbitrary: h acc)
  case Nil
  then show ?case by auto
next
  case (Cons e es)
  from Cons.prems(1) obtain h1 r where
    sf: "scoreFingering_store h e = Inr (h1, r)"
    by (auto split: sum.splits)
  let ?h2 = "store_write h1 out (FingeringArray (fingering_array_at h1 out @ [r]))"
  from Cons.prems(1) sf have rest: "map_scoreFingering_store ?h2 out es = Inr h'"
    by simp
  from scoreFingering_store_Inr[OF sf] obtain cs where
    h1: "h1 = h @ cs" and lcs: "length cs = 4" and r: "r = length h + 3" by auto
  have ext1: "store_extends h h1" unfolding h1 by (rule store_extends_append)
  have rd1: "store_read h1 out = Some (FingeringArray acc)"
    using store_extends_read[OF ext1 Cons.prems(4)] Cons.prems(5) by simp
  then have fa: "fingering_array_at h1 out = acc" by (simp add: fingering_array_at_def)
  have e0: "store_extends h0 h1" using store_extends_trans[OF Cons.prems(2) ext1] .
  have e2: "store_extends h0 ?h2" using store_extends_write[OF e0 Cons.prems(3)] .
  have l2: "length ?h2 = length h + 4" by (simp add: length_store_write h1 lcs)
  have o2: "out < length ?h2" using Cons.prems(4) l2 by simp
  have rd2: "store_read ?h2 out = Some (FingeringArray (acc @ [r]))"
    unfolding fa using Cons.prems(4) by (intro store_read_write_same) (simp add: h1)
  have fresh: "\<forall>x \<in> set (acc @ [r]). length h0 \<le> x \<and> x < length ?h2"
    using Cons.prems(6) Cons.prems(2) r l2 by (auto simp: store_extends_def)
  from Cons.IH[OF rest e2 Cons.prems(3) o2 rd2 fresh] l2 show ?case by auto
qed

text \<open>
  Claim C10. When \<open>rankFingerings\<close> returns, every cell of the store it was called on is
  unchanged: the input array (same elements, same order), each of its element objects,
  their positions arrays and everything else. The array it returns is a new cell, and so
  is each of its elements: the scores are on the copies \<open>scoreFingering\<close> made, and the
  sort wrote only to the new array.
\<close>

theorem rankFingerings_store_frame:
  assumes "rankFingerings_store h a = Inr (h', out)"
  shows "store_extends h h' \<and>
         (\<forall>b < length h. store_read h' b = store_read h b) \<and>
         length h \<le> out \<and>
         (\<exists>elems res. store_read h a = Some (FingeringArray elems) \<and>
            store_read h' out = Some (FingeringArray res) \<and>
            length res = length elems \<and>
            (\<forall>e \<in> set res. length h \<le> e \<and> e < length h'))"
proof -
  from assms obtain elems where elems: "store_read h a = Some (FingeringArray elems)"
    by (auto simp: rankFingerings_store_def split: option.splits cell.splits)
  let ?h0 = "h @ [FingeringArray []]"
  have eq: "rankFingerings_store h a =
      (case map_scoreFingering_store ?h0 (length h) elems of
         Inl err \<Rightarrow> Inl err
       | Inr h1 \<Rightarrow>
           Inr (store_write h1 (length h)
                  (FingeringArray
                     (sort_key (\<lambda>e. - score_at h1 e) (fingering_array_at h1 (length h)))),
                length h))"
    by (simp add: rankFingerings_store_def elems store_alloc_def)
  obtain h1 where
    loop: "map_scoreFingering_store ?h0 (length h) elems = Inr h1" and
    h': "h' = store_write h1 (length h)
                (FingeringArray (sort_key (\<lambda>e. - score_at h1 e) (fingering_array_at h1 (length h))))" and
    out: "out = length h"
  proof (cases "map_scoreFingering_store ?h0 (length h) elems")
    case (Inl err)
    with eq assms show ?thesis by simp
  next
    case (Inr h1)
    with eq assms that show ?thesis by simp
  qed
  have "store_extends h h1 \<and> length ?h0 \<le> length h1 \<and>
         (\<exists>acc'. store_read h1 (length h) = Some (FingeringArray acc') \<and>
                 (\<forall>e \<in> set acc'. length h \<le> e \<and> e < length h1) \<and>
                 length acc' = length ([]::addr list) + length elems)"
    by (rule map_scoreFingering_store_frame[OF loop])
       (simp_all add: store_extends_append store_read_def)
  then obtain acc' where ext: "store_extends h h1" and len: "length h < length h1"
    and rd: "store_read h1 (length h) = Some (FingeringArray acc')"
    and fresh: "\<forall>e \<in> set acc'. length h \<le> e \<and> e < length h1"
    and la: "length acc' = length elems" by auto
  have fa: "fingering_array_at h1 (length h) = acc'" using rd by (simp add: fingering_array_at_def)
  have ext': "store_extends h h'" unfolding h' by (rule store_extends_write[OF ext]) simp
  have rd': "store_read h' out = Some (FingeringArray (sort_key (\<lambda>e. - score_at h1 e) acc'))"
    unfolding h' out fa using len by (rule store_read_write_same)
  have lh: "length h' = length h1" unfolding h' by (rule length_store_write)
  have "\<forall>e \<in> set (sort_key (\<lambda>e. - score_at h1 e) acc'). length h \<le> e \<and> e < length h'"
    using fresh lh by simp
  then show ?thesis
    using ext' store_extends_read[OF ext'] out elems rd' la by auto
qed

theorem rankFingerings_store_frame_witness:
  "rankFingerings_store
     [PositionArray
        [\<lparr>row = 0, col = 0, padIndex = 0, midiNote = Some 48, finger = 1, pitchClass = 0\<rparr>,
         \<lparr>row = 0, col = 1, padIndex = 1, midiNote = Some 49, finger = 2, pitchClass = 1\<rparr>,
         \<lparr>row = 0, col = 2, padIndex = 2, midiNote = Some 50, finger = 3, pitchClass = 2\<rparr>],
      FingeringObject
        \<lparr>handprintId = ''h1'', hand = ''right'', comfortRating = Some 50, baseMidi = 48,
         midiDevice = None, capturedAt = None, positions = 0,
         score = 0, comfortScore = None, geometricScore = 0, ergonomicScore = 0\<rparr>,
      FingeringObject
        \<lparr>handprintId = ''h2'', hand = ''right'', comfortRating = Some 80, baseMidi = 48,
         midiDevice = None, capturedAt = None, positions = 0,
         score = 0, comfortScore = None, geometricScore = 0, ergonomicScore = 0\<rparr>,
      FingeringArray [1, 2]] 3
   = Inr
     ([PositionArray
        [\<lparr>row = 0, col = 0, padIndex = 0, midiNote = Some 48, finger = 1, pitchClass = 0\<rparr>,
         \<lparr>row = 0, col = 1, padIndex = 1, midiNote = Some 49, finger = 2, pitchClass = 1\<rparr>,
         \<lparr>row = 0, col = 2, padIndex = 2, midiNote = Some 50, finger = 3, pitchClass = 2\<rparr>],
      FingeringObject
        \<lparr>handprintId = ''h1'', hand = ''right'', comfortRating = Some 50, baseMidi = 48,
         midiDevice = None, capturedAt = None, positions = 0,
         score = 0, comfortScore = None, geometricScore = 0, ergonomicScore = 0\<rparr>,
      FingeringObject
        \<lparr>handprintId = ''h2'', hand = ''right'', comfortRating = Some 80, baseMidi = 48,
         midiDevice = None, capturedAt = None, positions = 0,
         score = 0, comfortScore = None, geometricScore = 0, ergonomicScore = 0\<rparr>,
      FingeringArray [1, 2],
      FingeringArray [12, 8],
      NumberArray [0, 0, 0], NumberArray [1, 2, 3], NumberArray [1, 2, 3],
      FingeringObject
        \<lparr>handprintId = ''h1'', hand = ''right'', comfortRating = Some 50, baseMidi = 48,
         midiDevice = None, capturedAt = None, positions = 0,
         score = 80, comfortScore = Some 50, geometricScore = 100, ergonomicScore = 100\<rparr>,
      NumberArray [0, 0, 0], NumberArray [1, 2, 3], NumberArray [1, 2, 3],
      FingeringObject
        \<lparr>handprintId = ''h2'', hand = ''right'', comfortRating = Some 80, baseMidi = 48,
         midiDevice = None, capturedAt = None, positions = 0,
         score = 92, comfortScore = Some 80, geometricScore = 100, ergonomicScore = 100\<rparr>],
      4)"
proof -
  let ?ps = "[\<lparr>row = 0, col = 0, padIndex = 0, midiNote = Some 48, finger = 1, pitchClass = 0\<rparr>,
         \<lparr>row = 0, col = 1, padIndex = 1, midiNote = Some 49, finger = 2, pitchClass = 1\<rparr>,
         \<lparr>row = 0, col = 2, padIndex = 2, midiNote = Some 50, finger = 3, pitchClass = 2\<rparr>]"
  let ?o1 = "\<lparr>handprintId = ''h1'', hand = ''right'', comfortRating = Some 50, baseMidi = 48,
         midiDevice = None, capturedAt = None, positions = 0::nat,
         score = 0, comfortScore = None, geometricScore = 0, ergonomicScore = 0\<rparr>"
  let ?o2 = "\<lparr>handprintId = ''h2'', hand = ''right'', comfortRating = Some 80, baseMidi = 48,
         midiDevice = None, capturedAt = None, positions = 0::nat,
         score = 0, comfortScore = None, geometricScore = 0, ergonomicScore = 0\<rparr>"
  let ?h = "[PositionArray ?ps, FingeringObject ?o1, FingeringObject ?o2, FingeringArray [1, 2]]"
  have geo: "scoreGeometry_store h ?ps = (h @ [NumberArray [0, 0, 0]], 100)" for h
    by (simp add: scoreGeometry_store_eq calculateSpan_def spanScore_def compactnessScore_def Let_def)
  have erg: "scoreErgonomics_store h ?ps = (h @ [NumberArray [1, 2, 3], NumberArray [1, 2, 3]], 100)" for h
    by (simp add: scoreErgonomics_store_eq ergonomicsFrom_def usesConsecutiveFingers_def Let_def)
  have ev: "rankFingerings_store ?h 3 = Inr (?h @
      [FingeringArray [12, 8],
       NumberArray [0, 0, 0], NumberArray [1, 2, 3], NumberArray [1, 2, 3],
       FingeringObject (?o1\<lparr>score := 80, comfortScore := Some 50, geometricScore := 100, ergonomicScore := 100\<rparr>),
       NumberArray [0, 0, 0], NumberArray [1, 2, 3], NumberArray [1, 2, 3],
       FingeringObject (?o2\<lparr>score := 92, comfortScore := Some 80, geometricScore := 100, ergonomicScore := 100\<rparr>)], 4)"
    by (simp add: rankFingerings_store_def scoreFingering_store_def store_read_def store_alloc_def
          store_write_def fingering_array_at_def score_at_def geo erg Math_round_def)
  from rankFingerings_store_frame[OF ev] ev show ?thesis by simp
qed

lemma agree_except_refl: "agree_except out h h"
  by (simp add: agree_except_def)

lemma agree_except_trans:
  "agree_except out h1 h2 \<Longrightarrow> agree_except out h2 h3 \<Longrightarrow> agree_except out h1 h3"
  by (auto simp: agree_except_def)

lemma agree_except_append: "agree_except out h (h @ cs)"
  by (simp add: agree_except_def nth_append)

lemma agree_except_write: "agree_except out h (store_write h out c)"
  by (simp add: agree_except_def store_write_def)

lemma agree_except_read:
  "agree_except out h h' \<Longrightarrow> b < length h \<Longrightarrow> b \<noteq> out \<Longrightarrow> store_read h' b = store_read h b"
  by (auto simp: agree_except_def store_read_def)

lemma agree_except_extends:
  assumes "agree_except (length h) (h @ cs) h'"
  shows "store_extends h h'"
proof -
  from assms have len: "length h \<le> length h'" by (simp add: agree_except_def)
  have "take (length h) h' = h"
  proof (rule nth_equalityI)
    show "length (take (length h) h') = length h" using len by simp
  next
    fix i assume "i < length (take (length h) h')"
    then have i: "i < length h" by simp
    with assms have "h' ! i = (h @ cs) ! i" by (simp add: agree_except_def)
    with i show "take (length h) h' ! i = h ! i" by (simp add: nth_append)
  qed
  with len show ?thesis by (simp add: store_extends_def)
qed

lemma store_read_Some_less: "store_read h a = Some c \<Longrightarrow> a < length h"
  by (auto simp: store_read_def split: if_splits)

lemma load_fingering_agree:
  assumes "load_fingering h e = Some f" "agree_except out h h'" "e \<noteq> out"
    and "\<And>obj. store_read h e = Some (FingeringObject obj) \<Longrightarrow> positions obj \<noteq> out"
  shows "load_fingering h' e = Some f"
proof -
  from assms(1) obtain obj ps where
    o: "store_read h e = Some (FingeringObject obj)" and
    p: "store_read h (positions obj) = Some (PositionArray ps)"
    by (auto simp: load_fingering_def split: option.splits cell.splits)
  have "store_read h' e = store_read h e"
    using agree_except_read[OF assms(2) store_read_Some_less[OF o] assms(3)] .
  moreover have "store_read h' (positions obj) = store_read h (positions obj)"
    using agree_except_read[OF assms(2) store_read_Some_less[OF p] assms(4)[OF o]] .
  ultimately show ?thesis using assms(1) o p by (simp add: load_fingering_def)
qed

lemma load_scored_object:
  assumes "store_read h a = Some (FingeringObject obj)"
    and "store_read h (positions obj) = Some (PositionArray ps)"
    and "load_fingering h a = Some f"
  shows "load_fingering
           (h @ [c1, c2, c3, FingeringObject (scored_object obj ps)]) (length h + 3)
         = Some (scoreFingering f)"
proof -
  have f: "f = \<lparr>handprintId = handprintId obj, hand = hand obj,
                     comfortRating = comfortRating obj, baseMidi = baseMidi obj,
                     midiDevice = midiDevice obj, capturedAt = capturedAt obj,
                     positions = ps, score = score obj, comfortScore = comfortScore obj,
                     geometricScore = geometricScore obj, ergonomicScore = ergonomicScore obj\<rparr>"
    using assms by (simp add: load_fingering_def)
  have lt: "positions obj < length h" using store_read_Some_less[OF assms(2)] .
  have r1: "store_read (h @ [c1, c2, c3, FingeringObject (scored_object obj ps)]) (length h + 3)
            = Some (FingeringObject (scored_object obj ps))"
    by (simp add: store_read_def nth_append)
  have po: "positions (scored_object obj ps) = positions obj"
    by (simp add: scored_object_def Let_def)
  have r2: "store_read (h @ [c1, c2, c3, FingeringObject (scored_object obj ps)]) (positions obj)
            = Some (PositionArray ps)"
    using assms(2) lt by (simp add: store_read_def nth_append)
  let ?so = "scored_object obj ps"
  have "load_fingering
           (h @ [c1, c2, c3, FingeringObject (scored_object obj ps)]) (length h + 3)
        = Some \<lparr>handprintId = handprintId ?so, hand = hand ?so,
                     comfortRating = comfortRating ?so, baseMidi = baseMidi ?so,
                     midiDevice = midiDevice ?so, capturedAt = capturedAt ?so,
                     positions = ps, score = score ?so, comfortScore = comfortScore ?so,
                     geometricScore = geometricScore ?so, ergonomicScore = ergonomicScore ?so\<rparr>"
    by (simp only: load_fingering_def r1 po r2 option.case cell.case)
  also have "\<dots> = Some (scoreFingering f)"
    by (simp add: f scored_object_def scoreFingering_def scoreComfort_def scoreGeometry_def
          scoreErgonomics_def Let_def)
  finally show ?thesis .
qed

lemma scoreFingering_store_eq:
  assumes "store_read h a = Some (FingeringObject obj)"
    and "store_read h (positions obj) = Some (PositionArray ps)"
  shows "scoreFingering_store h a =
        Inr (h @ [NumberArray (map row ps), NumberArray (sort (map finger ps)),
                  NumberArray (sort (map finger ps)), FingeringObject (scored_object obj ps)],
             length h + 3)"
  by (simp add: scoreFingering_store_def assms scoreGeometry_store_eq scoreErgonomics_store_eq
        store_alloc_def scored_object_def Let_def)

lemma load_fingering_SomeD:
  assumes "load_fingering h e = Some f"
  shows "\<exists>obj ps. store_read h e = Some (FingeringObject obj) \<and>
           store_read h (positions obj) = Some (PositionArray ps) \<and>
           e < length h \<and> positions obj < length h \<and> score obj = score f"
  using assms
  by (auto simp: load_fingering_def split: option.splits cell.splits dest: store_read_Some_less)

lemma load_fingering_extends:
  assumes "load_fingering h e = Some f" "store_extends h h'"
  shows "load_fingering h' e = Some f"
proof -
  from load_fingering_SomeD[OF assms(1)] obtain obj ps where
    o: "store_read h e = Some (FingeringObject obj)" and
    p: "store_read h (positions obj) = Some (PositionArray ps)" and
    l: "e < length h" "positions obj < length h" by blast
  show ?thesis
    using assms(1) o p store_extends_read[OF assms(2) l(1)] store_extends_read[OF assms(2) l(2)]
    by (simp add: load_fingering_def)
qed

lemma scored_at_agree:
  assumes "scored_at h out r f" "agree_except out h h'"
  shows "scored_at h' out r f"
proof -
  from assms(1) obtain obj where
    r: "out < r" and l: "load_fingering h r = Some (scoreFingering f)" and
    o: "store_read h r = Some (FingeringObject obj)" and p: "positions obj < out"
    by (auto simp: scored_at_def)
  have rl: "r < length h" using store_read_Some_less[OF o] .
  have "store_read h' r = store_read h r"
    using agree_except_read[OF assms(2) rl] r by simp
  moreover have "load_fingering h' r = Some (scoreFingering f)"
    using l assms(2) r o p by (intro load_fingering_agree[of h r _ out h']) auto
  ultimately show ?thesis using r o p by (auto simp: scored_at_def)
qed

lemma map_scoreFingering_store_refines:
  assumes "store_extends h0 h" and "out = length h0" and "out < length h"
    and "store_read h out = Some (FingeringArray acc)"
    and "list_all2 (\<lambda>e f. load_fingering h0 e = Some f) es fs"
  shows "\<exists>h' news. map_scoreFingering_store h out es = Inr h' \<and> agree_except out h h' \<and>
           store_read h' out = Some (FingeringArray (acc @ news)) \<and>
           list_all2 (scored_at h' out) news fs"
  using assms(5,1,3,4)
proof (induction arbitrary: h acc rule: list_all2_induct)
  case Nil
  then show ?case by (auto simp: agree_except_refl)
next
  case (Cons e es f fs)
  from load_fingering_SomeD[OF Cons.hyps(1)] obtain obj ps where
    o0: "store_read h0 e = Some (FingeringObject obj)" and
    p0: "store_read h0 (positions obj) = Some (PositionArray ps)" and
    l0: "e < length h0" "positions obj < length h0" by blast
  have o: "store_read h e = Some (FingeringObject obj)"
    using store_extends_read[OF Cons.prems(1) l0(1)] o0 by simp
  have p: "store_read h (positions obj) = Some (PositionArray ps)"
    using store_extends_read[OF Cons.prems(1) l0(2)] p0 by simp
  have lf: "load_fingering h e = Some f"
    using load_fingering_extends[OF Cons.hyps(1) Cons.prems(1)] .
  let ?cs = "[NumberArray (map row ps), NumberArray (sort (map finger ps)),
              NumberArray (sort (map finger ps)), FingeringObject (scored_object obj ps)]"
  let ?h1 = "h @ ?cs"
  let ?r = "length h + 3"
  have sf: "scoreFingering_store h e = Inr (?h1, ?r)" using scoreFingering_store_eq[OF o p] .
  have rd1: "store_read ?h1 out = Some (FingeringArray acc)"
    using Cons.prems(2,3) by (simp add: store_read_def nth_append)
  then have fa: "fingering_array_at ?h1 out = acc" by (simp add: fingering_array_at_def)
  let ?h2 = "store_write ?h1 out (FingeringArray (acc @ [?r]))"
  have step: "map_scoreFingering_store h out (e # es) = map_scoreFingering_store ?h2 out es"
    by (simp add: sf fa)
  have e1: "store_extends h0 ?h1"
    using store_extends_trans[OF Cons.prems(1) store_extends_append] .
  have e2: "store_extends h0 ?h2" using store_extends_write[OF e1] assms(2) by simp
  have o2: "out < length ?h2" using Cons.prems(2) by (simp add: length_store_write)
  have rd2: "store_read ?h2 out = Some (FingeringArray (acc @ [?r]))"
    using Cons.prems(2) by (intro store_read_write_same) simp
  from Cons.IH[OF e2 o2 rd2] obtain h' news where
    loop: "map_scoreFingering_store ?h2 out es = Inr h'" and
    ag: "agree_except out ?h2 h'" and
    rd': "store_read h' out = Some (FingeringArray ((acc @ [?r]) @ news))" and
    all: "list_all2 (scored_at h' out) news fs" by blast
  have ag1: "agree_except out h ?h2"
    using agree_except_trans[OF agree_except_append agree_except_write] .
  have l1: "load_fingering ?h1 ?r = Some (scoreFingering f)"
    using load_scored_object[OF o p lf] .
  have r1: "store_read ?h1 ?r = Some (FingeringObject (scored_object obj ps))"
    by (simp add: store_read_def nth_append)
  have po: "positions (scored_object obj ps) = positions obj"
    by (simp add: scored_object_def Let_def)
  have s1: "scored_at ?h1 out ?r f"
    unfolding scored_at_def using l1 r1 po l0(2) assms(2) Cons.prems(2) by simp
  have s2: "scored_at ?h2 out ?r f"
    using scored_at_agree[OF s1 agree_except_write] .
  have s': "scored_at h' out ?r f" using scored_at_agree[OF s2 ag] .
  show ?case
    using step loop agree_except_trans[OF ag1 ag] rd' s' all
    by (intro exI[of _ h'] exI[of _ "?r # news"]) simp
qed

lemma map_insort_key:
  assumes "k x = g (f x)" "\<forall>y \<in> set ys. k y = g (f y)"
  shows "map f (insort_key k x ys) = insort_key g (f x) (map f ys)"
  using assms by (induction ys) auto

lemma map_sort_key:
  assumes "\<forall>x \<in> set xs. k x = g (f x)"
  shows "map f (sort_key k xs) = sort_key g (map f xs)"
  using assms
proof (induction xs)
  case Nil
  then show ?case by simp
next
  case (Cons x xs)
  then have "map f (insort_key k x (sort_key k xs)) = insort_key g (f x) (map f (sort_key k xs))"
    by (intro map_insort_key) auto
  with Cons show ?case by simp
qed

lemma load_fingerings_SomeD:
  assumes "load_fingerings h a = Some fs"
  shows "\<exists>elems. store_read h a = Some (FingeringArray elems) \<and>
           list_all2 (\<lambda>e f. load_fingering h e = Some f) elems fs"
proof -
  from assms obtain elems where
    e: "store_read h a = Some (FingeringArray elems)" and
    a: "list_all (\<lambda>e. load_fingering h e \<noteq> None) elems" and
    f: "fs = map (\<lambda>e. the (load_fingering h e)) elems"
    by (auto simp: load_fingerings_def split: option.splits cell.splits if_splits)
  have "list_all2 (\<lambda>e f. load_fingering h e = Some f) elems fs"
    unfolding f list_all2_map2 using a by (auto simp: list_all_iff intro!: list_all2_same[THEN iffD2])
  with e show ?thesis by blast
qed

lemma load_fingerings_SomeI:
  assumes "store_read h a = Some (FingeringArray elems)"
    and "list_all2 (\<lambda>e f. load_fingering h e = Some f) elems fs"
  shows "load_fingerings h a = Some fs"
proof -
  from assms(2) have "list_all (\<lambda>e. load_fingering h e \<noteq> None) elems \<and>
     map (\<lambda>e. the (load_fingering h e)) elems = fs"
    by (induction rule: list_all2_induct) auto
  with assms(1) show ?thesis by (simp add: load_fingerings_def)
qed

lemma list_all2_Some_map:
  "list_all2 (\<lambda>e f. L e = Some f) xs ys \<Longrightarrow> map (\<lambda>e. the (L e)) xs = ys"
  by (induction rule: list_all2_induct) auto

lemma score_at_load: "load_fingering h e = Some f \<Longrightarrow> score_at h e = score f"
  using load_fingering_SomeD[of h e f] by (auto simp: score_at_def)

text \<open>
  The store model agrees with the model on values: when the input array reads as the list
  \<open>fs\<close> of fingerings, the call returns, the returned array reads as
  \<open>rankFingerings fs\<close>, and the input array still reads as \<open>fs\<close>.
\<close>

lemma rankFingerings_store_refines:
  assumes "load_fingerings h a = Some fs"
  shows "\<exists>h' out. rankFingerings_store h a = Inr (h', out) \<and>
           load_fingerings h' out = Some (rankFingerings fs) \<and>
           load_fingerings h' a = Some fs"
proof -
  from load_fingerings_SomeD[OF assms] obtain elems where
    el: "store_read h a = Some (FingeringArray elems)" and
    ld: "list_all2 (\<lambda>e f. load_fingering h e = Some f) elems fs" by blast
  let ?out = "length h"
  let ?h0 = "h @ [FingeringArray []]"
  have "\<exists>h1 news. map_scoreFingering_store ?h0 ?out elems = Inr h1 \<and> agree_except ?out ?h0 h1 \<and>
           store_read h1 ?out = Some (FingeringArray ([] @ news)) \<and>
           list_all2 (scored_at h1 ?out) news fs"
    by (rule map_scoreFingering_store_refines[OF store_extends_append _ _ _ ld])
       (simp_all add: store_read_def)
  then obtain h1 news where
    loop: "map_scoreFingering_store ?h0 ?out elems = Inr h1" and
    ag: "agree_except ?out ?h0 h1" and
    rd: "store_read h1 ?out = Some (FingeringArray news)" and
    sc: "list_all2 (scored_at h1 ?out) news fs" by auto
  let ?sorted = "sort_key (\<lambda>e. - score_at h1 e) news"
  let ?h' = "store_write h1 ?out (FingeringArray ?sorted)"
  have fa: "fingering_array_at h1 ?out = news" using rd by (simp add: fingering_array_at_def)
  have run: "rankFingerings_store h a = Inr (?h', ?out)"
    by (simp add: rankFingerings_store_def el store_alloc_def loop fa)
  have lt: "?out < length h1" using store_read_Some_less[OF rd] .
  have rd': "store_read ?h' ?out = Some (FingeringArray ?sorted)"
    using lt by (rule store_read_write_same)
  have sc': "list_all2 (scored_at ?h' ?out) news fs"
    using sc scored_at_agree[OF _ agree_except_write] by (rule list_all2_mono) 
  have loads: "list_all2 (\<lambda>e f. load_fingering ?h' e = Some f) news (map scoreFingering fs)"
    unfolding list_all2_map2 using sc' by (rule list_all2_mono) (simp add: scored_at_def)
  have keys: "\<forall>e \<in> set news. - score_at h1 e = - score (the (load_fingering ?h' e))"
  proof
    fix e assume "e \<in> set news"
    with sc obtain f where s1: "scored_at h1 ?out e f"
      by (auto simp: in_set_conv_nth list_all2_conv_all_nth)
    then have "load_fingering h1 e = Some (scoreFingering f)" by (simp add: scored_at_def)
    moreover have "load_fingering ?h' e = Some (scoreFingering f)"
      using scored_at_agree[OF s1 agree_except_write] by (simp add: scored_at_def)
    ultimately show "- score_at h1 e = - score (the (load_fingering ?h' e))"
      by (simp add: score_at_load)
  qed
  have vals: "map (\<lambda>e. the (load_fingering ?h' e)) news = map scoreFingering fs"
    using loads by (rule list_all2_Some_map)
  have sorted_vals: "map (\<lambda>e. the (load_fingering ?h' e)) ?sorted = rankFingerings fs"
    unfolding rankFingerings_def vals[symmetric]
    using keys
    by (rule map_sort_key[where f = "\<lambda>e. the (load_fingering ?h' e)" and g = "\<lambda>f. - score f"
          and k = "\<lambda>e. - score_at h1 e"])
  have all_loaded: "list_all (\<lambda>e. load_fingering ?h' e \<noteq> None) ?sorted"
    using loads by (auto simp: list_all_iff in_set_conv_nth list_all2_conv_all_nth)
  have out_ok: "load_fingerings ?h' ?out = Some (rankFingerings fs)"
    unfolding load_fingerings_def rd' using all_loaded sorted_vals by simp
  have ext: "store_extends h ?h'"
    using store_extends_write[OF agree_except_extends[OF ag]] by simp
  have a_lt: "a < length h" using store_read_Some_less[OF el] .
  have in_ok: "load_fingerings ?h' a = Some fs"
  proof (rule load_fingerings_SomeI)
    show "store_read ?h' a = Some (FingeringArray elems)"
      using store_extends_read[OF ext a_lt] el by simp
    show "list_all2 (\<lambda>e f. load_fingering ?h' e = Some f) elems fs"
      using ld load_fingering_extends[OF _ ext] by (rule list_all2_mono)
  qed
  show ?thesis using run out_ok in_ok by blast
qed

lemma rankFingerings_store_refines_witness:
  "load_fingerings
     [PositionArray
        [\<lparr>row = 0, col = 0, padIndex = 0, midiNote = Some 48, finger = 1, pitchClass = 0\<rparr>],
      FingeringObject
        \<lparr>handprintId = ''h1'', hand = ''right'', comfortRating = Some 50, baseMidi = 48,
         midiDevice = None, capturedAt = None, positions = 0,
         score = 0, comfortScore = None, geometricScore = 0, ergonomicScore = 0\<rparr>,
      FingeringArray [1]] 2
   = Some [\<lparr>handprintId = ''h1'', hand = ''right'', comfortRating = Some 50, baseMidi = 48,
         midiDevice = None, capturedAt = None,
         positions = [\<lparr>row = 0, col = 0, padIndex = 0, midiNote = Some 48, finger = 1, pitchClass = 0\<rparr>],
         score = 0, comfortScore = None, geometricScore = 0, ergonomicScore = 0\<rparr>] \<and>
   (\<exists>h' out. rankFingerings_store
     [PositionArray
        [\<lparr>row = 0, col = 0, padIndex = 0, midiNote = Some 48, finger = 1, pitchClass = 0\<rparr>],
      FingeringObject
        \<lparr>handprintId = ''h1'', hand = ''right'', comfortRating = Some 50, baseMidi = 48,
         midiDevice = None, capturedAt = None, positions = 0,
         score = 0, comfortScore = None, geometricScore = 0, ergonomicScore = 0\<rparr>,
      FingeringArray [1]] 2 = Inr (h', out) \<and>
     load_fingerings h' out = Some (rankFingerings
       [\<lparr>handprintId = ''h1'', hand = ''right'', comfortRating = Some 50, baseMidi = 48,
         midiDevice = None, capturedAt = None,
         positions = [\<lparr>row = 0, col = 0, padIndex = 0, midiNote = Some 48, finger = 1, pitchClass = 0\<rparr>],
         score = 0, comfortScore = None, geometricScore = 0, ergonomicScore = 0\<rparr>]))"
proof -
  let ?h = "[PositionArray
        [\<lparr>row = 0, col = 0, padIndex = 0, midiNote = Some 48, finger = 1, pitchClass = 0\<rparr>],
      FingeringObject
        \<lparr>handprintId = ''h1'', hand = ''right'', comfortRating = Some 50, baseMidi = 48,
         midiDevice = None, capturedAt = None, positions = 0::nat,
         score = 0, comfortScore = None, geometricScore = 0, ergonomicScore = 0\<rparr>,
      FingeringArray [1]]"
  let ?fs = "[\<lparr>handprintId = ''h1'', hand = ''right'', comfortRating = Some 50, baseMidi = 48,
         midiDevice = None, capturedAt = None,
         positions = [\<lparr>row = 0, col = 0, padIndex = 0, midiNote = Some 48, finger = 1, pitchClass = 0\<rparr>],
         score = 0, comfortScore = None, geometricScore = 0, ergonomicScore = 0\<rparr>]"
  have l: "load_fingerings ?h 2 = Some ?fs"
    by (simp add: load_fingerings_def load_fingering_def store_read_def)
  from rankFingerings_store_refines[OF l] l show ?thesis by blast
qed

end
